theory Spec2Isabelle
  imports Complex_Main
begin

section \<open>Data model of daily_sync.py\<close>

text \<open>
  One element of the JSON listing that \<open>rclone.ls\<close> returns and that the cache files
  hold. \<open>Path\<close> is always present in a listing; \<open>Size\<close>, \<open>IsDir\<close> and
  \<open>Hashes\<close> are read with \<open>dict.get\<close> and a default, so they may be absent.
\<close>

record entry =
  Path :: string
  Size :: "int option"
  IsDir :: "bool option"
  Hashes :: "(string \<times> string) list option"

text \<open>\<open>f.get('Hashes', {}).get('md5', '')\<close>: the empty string stands for an unknown hash.\<close>

definition md5_of :: "entry \<Rightarrow> string" where
  "md5_of f = (case Hashes f of
                 None \<Rightarrow> []
               | Some hs \<Rightarrow> (case map_of hs ''md5'' of None \<Rightarrow> [] | Some h \<Rightarrow> h))"

text \<open>\<open>item.get("IsDir", False)\<close> and \<open>file.get("Size", 0)\<close>.\<close>

definition is_dir :: "entry \<Rightarrow> bool" where
  "is_dir f = (case IsDir f of None \<Rightarrow> False | Some b \<Rightarrow> b)"

definition size_of :: "entry \<Rightarrow> int" where
  "size_of f = (case Size f of None \<Rightarrow> 0 | Some n \<Rightarrow> n)"

text \<open>
  A naive local \<open>datetime\<close>: the calendar day (what \<open>strftime('%Y-%m-%d')\<close> prints) and
  the microseconds since midnight. Python compares such values field by field.
\<close>

record datetime =
  date :: int
  micros :: nat

definition dt_ge :: "datetime \<Rightarrow> datetime \<Rightarrow> bool" where
  "dt_ge a b = (date b < date a \<or> (date a = date b \<and> micros b \<le> micros a))"

text \<open>\<open>.replace(hour=23, minute=0, second=0, microsecond=0)\<close>\<close>

definition replace_2300 :: "datetime \<Rightarrow> datetime" where
  "replace_2300 t = t\<lparr>micros := 23 * 3600 * 1000000\<rparr>"

subsection \<open>External calls and their replies\<close>

datatype ls_opts = MaxDepth1 | MaxDepthAllHash | NoOpts

datatype call =
    Ls string ls_opts
  | Hashsum string
  | Copyto string string
  | Delete string
  | About string

text \<open>
  A field of the object printed by \<open>rclone about --json\<close>, as \<open>int(data[k])\<close> sees it:
  the key is missing (KeyError), the value converts to an integer, the value is a string
  that is no number (ValueError), or the value is of a type \<open>int\<close> refuses (TypeError).
\<close>

datatype jfield = Absent | IntLike int | NotNumeric | NotConvertible

datatype about_out =
    ProcFailed string
  | NotJson
  | NotObject
  | Object jfield jfield

text \<open>
  The environment of a run. Every reply of the external tool may depend on all calls made
  before it, so each reply function takes the history of calls. \<open>clock n\<close> is the
  \<open>n\<close>-th reading of \<open>datetime.now()\<close>. \<open>md5_hex\<close> is \<open>hashlib.md5(...).hexdigest()\<close>
  and \<open>float_percent free total\<close> is the double that Python computes for
  \<open>(free / total) * 100\<close>; neither is computed here, both are parameters.
  A failed \<open>rclone.ls\<close> is \<open>Inl\<close> of the exception text, a failed subprocess is
  \<open>Inl\<close> of its return code and stderr.
\<close>

record env =
  clock :: "nat \<Rightarrow> datetime"
  md5_hex :: "string \<Rightarrow> string"
  float_percent :: "int \<Rightarrow> int \<Rightarrow> rat"
  ls_reply :: "call list \<Rightarrow> string \<Rightarrow> ls_opts \<Rightarrow> string + entry list"
  hashsum_reply :: "call list \<Rightarrow> string \<Rightarrow> (int \<times> string) + string"
  copyto_reply :: "call list \<Rightarrow> string \<Rightarrow> string \<Rightarrow> (int \<times> string) + string"
  delete_reply :: "call list \<Rightarrow> string \<Rightarrow> string option"
  about_reply :: "call list \<Rightarrow> string \<Rightarrow> about_out"

subsection \<open>Program state\<close>

datatype level = DEBUG | INFO | WARNING | ERROR

text \<open>
  A cache file of the day: a snapshot
  \<open>{md5(remote)}_{source|dest}_{day}.json\<close> or a plan
  \<open>sync_list_{md5(source)}_{day}.json\<close>. The flag of \<open>SnapshotFile\<close> is
  \<open>is_source\<close>.
\<close>

datatype cache_file = SnapshotFile string bool int | PlanFile string int

text \<open>
  A log record is the level, the line of the \<open>logger\<close> call in daily_sync.py and the
  paths, hashes and error texts among the values it formats. The state is the cache
  directory, the external calls made so far, the log, and the number of clock readings
  taken.
\<close>

type_synonym logrec = "level \<times> nat \<times> string list"

record state =
  cache :: "cache_file \<rightharpoonup> entry list"
  trace :: "call list"
  logs :: "logrec list"
  ticks :: nat

definition logger :: "level \<Rightarrow> nat \<Rightarrow> string list \<Rightarrow> state \<Rightarrow> state" where
  "logger lv lineno args s = s\<lparr>logs := logs s @ [(lv, lineno, args)]\<rparr>"

definition now :: "env \<Rightarrow> state \<Rightarrow> datetime \<times> state" where
  "now e s = (clock e (ticks s), s\<lparr>ticks := Suc (ticks s)\<rparr>)"

definition rclone_ls :: "env \<Rightarrow> string \<Rightarrow> ls_opts \<Rightarrow> state \<Rightarrow> (string + entry list) \<times> state" where
  "rclone_ls e p opts s = (ls_reply e (trace s) p opts, s\<lparr>trace := trace s @ [Ls p opts]\<rparr>)"

datatype exn = ValueError | TypeError | IndexError

section \<open>Snapshot cache\<close>

definition check_remote_exists :: "env \<Rightarrow> string \<Rightarrow> state \<Rightarrow> bool \<times> state" where
  "check_remote_exists e remote_path s =
     (let s = logger DEBUG 44 [remote_path] s;
          (r, s) = rclone_ls e remote_path MaxDepth1 s
      in case r of
           Inr result \<Rightarrow> (True, logger DEBUG 47 [remote_path] s)
         | Inl err \<Rightarrow> (False, logger ERROR 50 [remote_path, err] s))"

definition get_cached_files :: "env \<Rightarrow> string \<Rightarrow> bool \<Rightarrow> state \<Rightarrow> entry list \<times> state" where
  "get_cached_files e remote_path is_source s =
     (let (today, s) = now e s;
          cache_file = SnapshotFile (md5_hex e remote_path) is_source (date today)
      in case cache s cache_file of
           Some files \<Rightarrow> (files, logger INFO 61 [] s)
         | None \<Rightarrow>
            (let (ex, s) = check_remote_exists e remote_path s
             in if \<not> ex then
                  (if is_source then ([], logger ERROR 68 [remote_path] s)
                   else (let s = logger INFO 71 [remote_path] s
                         in ([], s\<lparr>cache := (cache s)(cache_file \<mapsto> [])\<rparr>)))
                else
                  (let s = logger INFO 76 [remote_path] s;
                       (r, s) = rclone_ls e remote_path MaxDepthAllHash s
                   in case r of
                        Inr items \<Rightarrow>
                          (let files = filter (\<lambda>item. \<not> is_dir item) items
                           in (files, s\<lparr>cache := (cache s)(cache_file \<mapsto> files)\<rparr>))
                      | Inl err \<Rightarrow> ([], logger ERROR 85 [err] s))))"

section \<open>Diff engine\<close>

definition delete_file :: "env \<Rightarrow> string \<Rightarrow> state \<Rightarrow> bool \<times> state" where
  "delete_file e remote_path s =
     (let s = logger DEBUG 136 [remote_path] s;
          r = delete_reply e (trace s) remote_path;
          s = s\<lparr>trace := trace s @ [Delete remote_path]\<rparr>
      in case r of
           None \<Rightarrow> (True, logger DEBUG 140 [remote_path] s)
         | Some err \<Rightarrow> (False, logger WARNING 143 [remote_path, err] s))"

text \<open>\<open>{f['Path']: f for f in dest_files}\<close>: a later entry replaces an earlier one.\<close>

definition dest_files_dict :: "entry list \<Rightarrow> (string \<rightharpoonup> entry)" where
  "dest_files_dict dest_files = map_of (rev (map (\<lambda>f. (Path f, f)) dest_files))"

text \<open>The loop \<open>for src_file in source_files\<close> of \<open>get_files_to_copy\<close> (lines 166 to 182).\<close>

fun plan_loop :: "env \<Rightarrow> string \<Rightarrow> (string \<rightharpoonup> entry) \<Rightarrow> entry list \<Rightarrow> entry list \<Rightarrow> state
                  \<Rightarrow> entry list \<times> state" where
  "plan_loop e destination d [] files_to_copy s = (files_to_copy, s)"
| "plan_loop e destination d (src_file # rest) files_to_copy s =
     (let src_path = Path src_file;
          src_hash = md5_of src_file
      in case d src_path of
           Some dest_file \<Rightarrow>
             (let dest_hash = md5_of dest_file
              in if src_hash \<noteq> [] \<and> dest_hash \<noteq> [] \<and> src_hash \<noteq> dest_hash then
                   (let s = logger INFO 177 [src_path, src_hash, dest_hash] s;
                        (deleted, s) = delete_file e (destination @ ''/'' @ src_path) s
                    in plan_loop e destination d rest (files_to_copy @ [src_file]) s)
                 else plan_loop e destination d rest files_to_copy s)
         | None \<Rightarrow>
             plan_loop e destination d rest (files_to_copy @ [src_file])
               (logger INFO 181 [src_path] s))"

definition get_files_to_copy :: "env \<Rightarrow> string \<Rightarrow> string \<Rightarrow> state \<Rightarrow> entry list \<times> state" where
  "get_files_to_copy e source destination s =
     (let (today, s) = now e s;
          cache_file = PlanFile (md5_hex e source) (date today)
      in case cache s cache_file of
           Some plan \<Rightarrow> (plan, logger INFO 151 [] s)
         | None \<Rightarrow>
            (let (source_files, s) = get_cached_files e source True s;
                 (gone, s) = (if source_files = []
                              then (let (ex, s) = check_remote_exists e source s in (\<not> ex, s))
                              else (False, s))
             in if gone then ([], logger ERROR 157 [source] s)
                else
                  (let (dest_files, s) = get_cached_files e destination False s;
                       (files_to_copy, s) =
                          plan_loop e destination (dest_files_dict dest_files) source_files [] s
                   in (files_to_copy, s\<lparr>cache := (cache s)(cache_file \<mapsto> files_to_copy)\<rparr>))))"

section \<open>Text helpers\<close>

text \<open>
  A text is a list of code points below 256. \<open>str.lower()\<close> adds 32 to the upper-case
  letters, which sets bit 5 of the code: \<open>A\<close> (65) to \<open>Z\<close> (90), and the accented
  capitals 192 to 222 except the multiplication sign 215.
\<close>

definition lower_char :: "char \<Rightarrow> char" where
  "lower_char c = (case c of
                     Char b0 b1 b2 b3 b4 b5 b6 b7 \<Rightarrow>
                       if (65 \<le> (of_char c :: nat) \<and> (of_char c :: nat) \<le> 90)
                          \<or> (192 \<le> (of_char c :: nat) \<and> (of_char c :: nat) \<le> 222
                              \<and> (of_char c :: nat) \<noteq> 215)
                       then Char b0 b1 b2 b3 b4 True b6 b7
                       else c)"

definition lower :: "string \<Rightarrow> string" where
  "lower s = map lower_char s"

fun starts_with :: "string \<Rightarrow> string \<Rightarrow> bool" where
  "starts_with [] s = True"
| "starts_with (k # ks) [] = False"
| "starts_with (k # ks) (c # cs) = (k = c \<and> starts_with ks cs)"

text \<open>Python's \<open>k in s\<close> on strings.\<close>

fun contains :: "string \<Rightarrow> string \<Rightarrow> bool" where
  "contains k [] = (k = [])"
| "contains k (c # cs) = (starts_with k (c # cs) \<or> contains k cs)"

definition quota_keywords :: "string list" where
  "quota_keywords = [''quotaExceeded'', ''userRateLimitExceeded'', ''403'', ''429'', ''Rate Limit'']"

definition is_quota_exceeded :: "string \<Rightarrow> bool" where
  "is_quota_exceeded error_msg = list_ex (\<lambda>k. contains (lower k) (lower error_msg)) quota_keywords"

text \<open>
  \<open>str(n)\<close> for an integer, used by the f-string of line 133. \<open>digit_char\<close> is only
  applied to numbers below ten.
\<close>

definition digit_char :: "nat \<Rightarrow> char" where
  "digit_char d = ''0123456789'' ! d"

function str_nat :: "nat \<Rightarrow> string" where
  "str_nat n = (if n < 10 then [digit_char n] else str_nat (n div 10) @ [digit_char (n mod 10)])"
  by pat_completeness auto
termination
  by (relation "measure id") auto

definition str_int :: "int \<Rightarrow> string" where
  "str_int i = (if i < 0 then CHR ''-'' # str_nat (nat (- i)) else str_nat (nat i))"

text \<open>
  The whitespace that \<open>str.split()\<close> and \<open>str.strip()\<close> recognise among the code
  points below 256 (tab to carriage return, the four separators 28 to 31, the space, the
  next-line control 133 and the no-break space 160), and
  \<open>stdout.split(maxsplit=1)[0]\<close>: the first token, or IndexError when there is none.
\<close>

definition is_space :: "char \<Rightarrow> bool" where
  "is_space c = ((of_char c :: nat) \<in> {9, 10, 11, 12, 13, 28, 29, 30, 31, 32, 133, 160})"

definition first_token :: "string \<Rightarrow> exn + string" where
  "first_token out = (case dropWhile is_space out of
                        [] \<Rightarrow> Inl IndexError
                      | c # cs \<Rightarrow> Inr (takeWhile (\<lambda>x. \<not> is_space x) (c # cs)))"

text \<open>\<open>str.strip()\<close>\<close>

definition strip :: "string \<Rightarrow> string" where
  "strip t = rev (dropWhile is_space (rev (dropWhile is_space t)))"

section \<open>Capacity monitor\<close>

text \<open>
  \<open>extract_remote_name\<close> raises ValueError when the path has no colon and otherwise
  returns the text before the first one.
\<close>

definition extract_remote_name :: "string \<Rightarrow> exn + string" where
  "extract_remote_name remote_path =
     (if CHR '':'' \<notin> set remote_path then Inl ValueError
      else Inr (takeWhile (\<lambda>c. c \<noteq> CHR '':'') remote_path))"

text \<open>
  The three messages of the failure returns (lines 223, 225 and 227), and the tuple that
  \<open>get_gdrive_free_space_percent_from_path\<close> returns: three components on success
  (line 221), two on failure.
\<close>

datatype cap_msg = InputError | RcloneError string | JsonError

datatype cap_tuple = Tuple3 bool rat int | Tuple2 bool cap_msg

text \<open>
  \<open>int(data[k])\<close> inside the \<open>try\<close>: a value, or the exception, where \<open>Inl None\<close> is
  KeyError and \<open>Inl (Some x)\<close> any other exception \<open>x\<close>.
\<close>

definition int_field :: "jfield \<Rightarrow> exn option + int" where
  "int_field v = (case v of
                    Absent \<Rightarrow> Inl None
                  | IntLike n \<Rightarrow> Inr n
                  | NotNumeric \<Rightarrow> Inl (Some ValueError)
                  | NotConvertible \<Rightarrow> Inl (Some TypeError))"

text \<open>
  The handlers of lines 222 to 227: ValueError (which JSONDecodeError is) gives the first
  message, KeyError the third; a TypeError is not handled and leaves the function.
\<close>

definition cap_handler :: "exn option \<Rightarrow> exn + cap_tuple" where
  "cap_handler x = (case x of
                      None \<Rightarrow> Inr (Tuple2 False JsonError)
                    | Some ValueError \<Rightarrow> Inr (Tuple2 False InputError)
                    | Some other \<Rightarrow> Inl other)"

definition get_gdrive_free_space_percent_from_path ::
    "env \<Rightarrow> string \<Rightarrow> state \<Rightarrow> (exn + cap_tuple) \<times> state" where
  "get_gdrive_free_space_percent_from_path e remote_path s =
     (case extract_remote_name remote_path of
        Inl x \<Rightarrow> (cap_handler (Some x), s)
      | Inr remote \<Rightarrow>
         (let r = about_reply e (trace s) (remote @ '':'');
              s = s\<lparr>trace := trace s @ [About (remote @ '':'')]\<rparr>
          in case r of
               ProcFailed err \<Rightarrow> (Inr (Tuple2 False (RcloneError (strip err))), s)
             | NotJson \<Rightarrow> (cap_handler (Some ValueError), s)
             | NotObject \<Rightarrow> (cap_handler (Some TypeError), s)
             | Object t f \<Rightarrow>
                (case int_field t of
                   Inl x \<Rightarrow> (cap_handler x, s)
                 | Inr total_b \<Rightarrow>
                    (case int_field f of
                       Inl x \<Rightarrow> (cap_handler x, s)
                     | Inr free_b \<Rightarrow>
                        (let percent_free =
                               (if total_b > 0 then float_percent e free_b total_b else 0)
                         in (Inr (Tuple3 True percent_free free_b), s))))))"

section \<open>Transfer executor\<close>

subsection \<open>Hash, copy\<close>

definition get_file_hash :: "env \<Rightarrow> string \<Rightarrow> state \<Rightarrow> (exn + string option) \<times> state" where
  "get_file_hash e remote_path s =
     (let s = logger DEBUG 89 [remote_path] s;
          r = hashsum_reply e (trace s) remote_path;
          s = s\<lparr>trace := trace s @ [Hashsum remote_path]\<rparr>
      in case r of
           Inr out \<Rightarrow>
             (if out \<noteq> [] then
                (case first_token out of
                   Inl x \<Rightarrow> (Inl x, s)
                 | Inr hash_value \<Rightarrow>
                     (Inr (Some hash_value), logger DEBUG 95 [remote_path, hash_value] s))
              else (Inr None, logger WARNING 97 [remote_path] s))
         | Inl (rc, err) \<Rightarrow> (Inr None, logger WARNING 100 [remote_path, err] s))"

definition run_rclone_copy :: "env \<Rightarrow> string \<Rightarrow> string \<Rightarrow> state \<Rightarrow> (bool \<times> string) \<times> state" where
  "run_rclone_copy e src_path dest_path s =
     (let r = copyto_reply e (trace s) src_path dest_path;
          s = s\<lparr>trace := trace s @ [Copyto src_path dest_path]\<rparr>
      in case r of
           Inr out \<Rightarrow> ((True, out), s)
         | Inl (rc, err) \<Rightarrow> ((False, ''Exit code '' @ str_int rc @ '': '' @ err), s))"

text \<open>\<open>src_hash and dest_hash and src_hash == dest_hash\<close> on two optional strings.\<close>

definition hashes_match :: "string option \<Rightarrow> string option \<Rightarrow> bool" where
  "hashes_match src_hash dest_hash =
     (case (src_hash, dest_hash) of
        (Some a, Some b) \<Rightarrow> a \<noteq> [] \<and> b \<noteq> [] \<and> a = b
      | _ \<Rightarrow> False)"

section \<open>Sync orchestrator\<close>

text \<open>
  How a loop body of \<open>sync_files\<close> ends: it goes on to the next element
  (\<open>continue\<close>, or the end of the body), the function returns, or an exception
  leaves it. The two numbers are \<open>total_copied\<close> and \<open>total_size_copied\<close>.
\<close>

datatype flow = Continue int int | Return int int | Raise exn

text \<open>
  \<open>CONFIG["MAX_TRANSFER_GB"]\<close>. Line 282 compares \<open>total_size_copied / (1024 ** 3)\<close>
  with it; the division by a power of two and the rounding to a double keep the order
  against the whole number 500, so the model compares the integers.
\<close>

definition MAX_TRANSFER_GB :: int where
  "MAX_TRANSFER_GB = 500"

text \<open>
  The branch \<open>if success:\<close> after the first copy (lines 310 to 334): verify, and on a
  mismatch delete the destination copy and, if that worked, copy and verify once more.
\<close>

definition verify_copy :: "env \<Rightarrow> entry \<Rightarrow> string \<Rightarrow> string \<Rightarrow> int \<Rightarrow> int \<Rightarrow> int \<Rightarrow> state
                           \<Rightarrow> flow \<times> state" where
  "verify_copy e file src_path dest_path file_size total_copied total_size_copied s =
     (case get_file_hash e src_path s of
        (Inl x, s) \<Rightarrow> (Raise x, s)
      | (Inr src_hash, s) \<Rightarrow>
     (case get_file_hash e dest_path s of
        (Inl x, s) \<Rightarrow> (Raise x, s)
      | (Inr dest_hash, s) \<Rightarrow>
        if hashes_match src_hash dest_hash then
          (Continue (total_copied + 1) (total_size_copied + file_size),
           logger INFO 313 [Path file] s)
        else
          (let s = logger ERROR 317 [Path file] s;
               (deleted, s) = delete_file e dest_path s
           in if deleted then
                (let s = logger INFO 319 [Path file] s;
                     s = logger INFO 320 [Path file] s;
                     ((success, error_msg), s) = run_rclone_copy e src_path dest_path s
                 in if success then
                      (case get_file_hash e src_path s of
                         (Inl x, s) \<Rightarrow> (Raise x, s)
                       | (Inr src_hash, s) \<Rightarrow>
                      (case get_file_hash e dest_path s of
                         (Inl x, s) \<Rightarrow> (Raise x, s)
                       | (Inr dest_hash, s) \<Rightarrow>
                         if hashes_match src_hash dest_hash then
                           (Continue (total_copied + 1) (total_size_copied + file_size),
                            logger INFO 326 [Path file] s)
                         else
                           (Continue total_copied total_size_copied,
                            logger ERROR 330 [Path file] s)))
                    else
                      (Continue total_copied total_size_copied,
                       logger ERROR 332 [Path file, error_msg] s))
              else
                (Continue total_copied total_size_copied,
                 logger WARNING 334 [Path file] s))))"

text \<open>The body of \<open>for file in files\<close> (lines 275 to 340).\<close>

definition process_file :: "env \<Rightarrow> string \<Rightarrow> string \<Rightarrow> int \<Rightarrow> datetime \<Rightarrow> entry \<Rightarrow> int \<Rightarrow> int
                            \<Rightarrow> state \<Rightarrow> flow \<times> state" where
  "process_file e source destination free_space stop_time file total_copied total_size_copied s =
     (let (current_time, s) = now e s
      in if dt_ge current_time stop_time then
           (Return total_copied total_size_copied, logger INFO 278 [] (logger INFO 277 [] s))
         else
      (let s = logger INFO 281 [] s
       in if total_size_copied \<ge> MAX_TRANSFER_GB * 1024 ^ 3 then
            (Return total_copied total_size_copied, logger INFO 283 [] s)
          else
      (let src_path = source @ ''/'' @ Path file;
           dest_path = destination @ ''/'' @ Path file;
           file_size = size_of file
       in if total_size_copied + file_size > free_space then
            (Continue total_copied total_size_copied,
             logger ERROR 292 [destination, Path file] s)
          else
      (let s = logger INFO 295 [Path file] s;
           (r, s) = rclone_ls e src_path NoOpts s
       in case r of
            Inl err \<Rightarrow>
              (Continue total_copied total_size_copied, logger ERROR 303 [src_path, err] s)
          | Inr items \<Rightarrow>
              if items = [] then
                (Continue total_copied total_size_copied, logger ERROR 300 [src_path] s)
              else
      (let s = logger INFO 306 [Path file] s;
           ((success, error_msg), s) = run_rclone_copy e src_path dest_path s
       in if success then
            verify_copy e file src_path dest_path file_size total_copied total_size_copied s
          else
            (let s = logger ERROR 336 [Path file, error_msg] s
             in if is_quota_exceeded error_msg then
                  (Return total_copied total_size_copied, logger ERROR 338 [error_msg] s)
                else (Continue total_copied total_size_copied, s)))))))"

fun files_loop :: "env \<Rightarrow> string \<Rightarrow> string \<Rightarrow> int \<Rightarrow> datetime \<Rightarrow> entry list \<Rightarrow> int \<Rightarrow> int
                   \<Rightarrow> state \<Rightarrow> flow \<times> state" where
  "files_loop e source destination free_space stop_time [] total_copied total_size_copied s =
     (Continue total_copied total_size_copied, s)"
| "files_loop e source destination free_space stop_time (file # rest)
       total_copied total_size_copied s =
     (case process_file e source destination free_space stop_time file
             total_copied total_size_copied s of
        (Continue total_copied total_size_copied, s) \<Rightarrow>
          files_loop e source destination free_space stop_time rest
            total_copied total_size_copied s
      | other \<Rightarrow> other)"

text \<open>
  The body of \<open>for transfer in transfers\<close> (lines 247 to 340). Line 249 unpacks the
  returned tuple into three names, which raises ValueError on a tuple of two.
\<close>

definition process_transfer :: "env \<Rightarrow> datetime \<Rightarrow> string \<times> string \<Rightarrow> int \<Rightarrow> int \<Rightarrow> state
                                \<Rightarrow> flow \<times> state" where
  "process_transfer e stop_time transfer total_copied total_size_copied s =
     (let source = fst transfer;
          destination = snd transfer
      in case get_gdrive_free_space_percent_from_path e destination s of
           (Inl x, s) \<Rightarrow> (Raise x, s)
         | (Inr (Tuple2 a b), s) \<Rightarrow> (Raise ValueError, s)
         | (Inr (Tuple3 success percent free_space), s) \<Rightarrow>
             if \<not> success then
               (Continue total_copied total_size_copied, logger ERROR 251 [destination] s)
             else if percent < 2 then
               (Continue total_copied total_size_copied, logger ERROR 254 [destination] s)
             else
      (let s = logger INFO 256 [source, destination] s;
           (ex, s) = check_remote_exists e source s
       in if \<not> ex then
            (Continue total_copied total_size_copied, logger ERROR 260 [source] s)
          else
      (let (files, s) = get_files_to_copy e source destination s
       in if files = [] then
            (let (source_files, s) = get_cached_files e source True s
             in (Continue total_copied total_size_copied,
                 if source_files \<noteq> [] then logger INFO 267 [source] s
                 else logger ERROR 269 [source] s))
          else
            files_loop e source destination free_space stop_time files
              total_copied total_size_copied (logger INFO 272 [source] s))))"

fun transfers_loop :: "env \<Rightarrow> datetime \<Rightarrow> (string \<times> string) list \<Rightarrow> int \<Rightarrow> int \<Rightarrow> state
                       \<Rightarrow> flow \<times> state" where
  "transfers_loop e stop_time [] total_copied total_size_copied s =
     (Continue total_copied total_size_copied, s)"
| "transfers_loop e stop_time (transfer # rest) total_copied total_size_copied s =
     (case process_transfer e stop_time transfer total_copied total_size_copied s of
        (Continue total_copied total_size_copied, s) \<Rightarrow>
          transfers_loop e stop_time rest total_copied total_size_copied s
      | other \<Rightarrow> other)"

text \<open>
  \<open>sync_files\<close> from line 231 on, given the list that \<open>parse_transfers\<close> returned
  (the pairs \<open>(SOURCE, DESTINATION)\<close>); the set-up of the log handlers and the parsing
  of the command line are not part of the model. The result \<open>Return n b\<close> carries the
  values of \<open>total_copied\<close> and \<open>total_size_copied\<close> when the function returns.
\<close>

definition sync_files :: "env \<Rightarrow> (string \<times> string) list \<Rightarrow> state \<Rightarrow> flow \<times> state" where
  "sync_files e transfers s =
     (let total_copied = 0;
          total_size_copied = 0;
          (t, s) = now e s;
          stop_time = replace_2300 t;
          s = logger INFO 234 [] s
      in if transfers = [] then
           (Return total_copied total_size_copied, logger ERROR 243 [] s)
         else
           (case transfers_loop e stop_time transfers total_copied total_size_copied s of
              (Continue total_copied total_size_copied, s) \<Rightarrow>
                (Return total_copied total_size_copied, logger INFO 342 [] s)
            | other \<Rightarrow> other))"

section \<open>Observing a run\<close>

text \<open>How many copies, deletions and listings a history of external calls holds.\<close>

definition copies :: "call list \<Rightarrow> nat" where
  "copies h = length (filter (\<lambda>c. case c of Copyto a b \<Rightarrow> True | _ \<Rightarrow> False) h)"

definition deletions :: "call list \<Rightarrow> nat" where
  "deletions h = length (filter (\<lambda>c. case c of Delete a \<Rightarrow> True | _ \<Rightarrow> False) h)"

definition listings :: "call list \<Rightarrow> nat" where
  "listings h = length (filter (\<lambda>c. case c of Ls a b \<Rightarrow> True | _ \<Rightarrow> False) h)"


subsection \<open>Sample inputs\<close>

definition init_state :: state where
  "init_state = \<lparr>cache = Map.empty, trace = [], logs = [], ticks = 0\<rparr>"

definition file_A :: entry where
  "file_A = \<lparr>Path = ''A'', Size = Some 10, IsDir = None, Hashes = Some [(''md5'', ''h1'')]\<rparr>"

definition file_B :: entry where
  "file_B = \<lparr>Path = ''B'', Size = Some 20, IsDir = None, Hashes = Some [(''md5'', ''h2'')]\<rparr>"

definition file_C :: entry where
  "file_C = \<lparr>Path = ''C'', Size = Some 30, IsDir = None, Hashes = None\<rparr>"

definition stale_A :: entry where
  "stale_A = \<lparr>Path = ''A'', Size = Some 10, IsDir = None, Hashes = Some [(''md5'', ''h0'')]\<rparr>"

text \<open>
  A quiet environment: it is noon, the source \<open>s:\<close> holds A and B, every other tree
  holds A, every call succeeds, every hash is \<open>h1\<close>, and the destination has half of
  its 1000 bytes free.
\<close>

definition noon :: datetime where
  "noon = \<lparr>date = 0, micros = 12 * 3600 * 1000000\<rparr>"

definition demo_env :: env where
  "demo_env = \<lparr>clock = (\<lambda>n. noon),
                md5_hex = (\<lambda>p. p),
                float_percent = (\<lambda>f t. of_int f / of_int t * 100),
                ls_reply = (\<lambda>h p opts. if p = ''s:'' then Inr [file_A, file_B] else Inr [file_A]),
                hashsum_reply = (\<lambda>h p. Inr ''h1  f''),
                copyto_reply = (\<lambda>h a b. Inr []),
                delete_reply = (\<lambda>h p. None),
                about_reply = (\<lambda>h p. Object (IntLike 1000) (IntLike 500))\<rparr>"

text \<open>The same, with no remote tree reachable.\<close>

definition unreachable_env :: env where
  "unreachable_env = demo_env\<lparr>ls_reply := (\<lambda>h p opts. Inl ''directory not found'')\<rparr>"

text \<open>The same, with 15 of 1000 bytes free on the destination.\<close>

definition full_env :: env where
  "full_env = demo_env\<lparr>about_reply := (\<lambda>h p. Object (IntLike 1000) (IntLike 15))\<rparr>"

text \<open>The destination copy of A always hashes differently from the source.\<close>

definition mismatch_env :: env where
  "mismatch_env =
     demo_env\<lparr>hashsum_reply := (\<lambda>h p. if p = ''d:/A'' then Inr ''h2  A'' else Inr ''h1  f'')\<rparr>"

text \<open>
  The destination copy of A hashes differently from the source and cannot be deleted.
\<close>

definition undeletable_env :: env where
  "undeletable_env =
     demo_env\<lparr>hashsum_reply := (\<lambda>h p. if p = ''d:/A'' then Inr ''h2  A'' else Inr ''h1  f''),
              delete_reply := (\<lambda>h p. Some ''permission denied'')\<rparr>"

text \<open>
  The destination copy of A hashes differently and is deleted, and the second copy of the
  run (the retry) fails with a quota error.
\<close>

definition retry_quota_env :: env where
  "retry_quota_env =
     demo_env\<lparr>hashsum_reply := (\<lambda>h p. if p = ''d:/A'' then Inr ''h2  A'' else Inr ''h1  f''),
              copyto_reply := (\<lambda>h a b. if copies h = 1
                                         then Inl (1, ''googleapi: Error 403: quotaExceeded'')
                                         else Inr [])\<rparr>"

text \<open>Every copy fails with a quota error.\<close>

definition first_quota_env :: env where
  "first_quota_env =
     demo_env\<lparr>copyto_reply := (\<lambda>h a b. Inl (1, ''googleapi: Error 403: quotaExceeded''))\<rparr>"

text \<open>The source \<open>s:\<close> and the tree \<open>d1:\<close> hold A, every other tree is empty.\<close>

definition two_dest_env :: env where
  "two_dest_env =
     demo_env\<lparr>ls_reply := (\<lambda>h p opts. if p = ''s:'' \<or> p = ''d1:'' then Inr [file_A] else Inr [])\<rparr>"

text \<open>
  Capacity queries that fail: \<open>down:\<close> makes rclone exit with an error, \<open>junk:\<close>
  prints no JSON, \<open>nofree:\<close> prints an object without the key \<open>free\<close>.
\<close>

definition broken_about_env :: env where
  "broken_about_env =
     demo_env\<lparr>about_reply := (\<lambda>h p. if p = ''down:'' then ProcFailed ''connection refused''
                                      else if p = ''junk:'' then NotJson
                                      else if p = ''nofree:'' then Object (IntLike 1000) Absent
                                      else Object (IntLike 1000) (IntLike 500))\<rparr>"

text \<open>It is 23:30 and the destination holds a stale copy of A.\<close>

definition late_env :: env where
  "late_env =
     demo_env\<lparr>clock := (\<lambda>n. \<lparr>date = 0, micros = 23 * 3600 * 1000000 + 1800 * 1000000\<rparr>),
              ls_reply := (\<lambda>h p opts. if p = ''s:'' then Inr [file_A, file_B] else Inr [stale_A])\<rparr>"

text \<open>
  The source holds A, B and C (C without a hash); the destination holds a stale copy of A
  and C.
\<close>

definition diff_env :: env where
  "diff_env =
     demo_env\<lparr>ls_reply := (\<lambda>h p opts. if p = ''s:'' then Inr [file_A, file_B, file_C]
                                        else Inr [stale_A, file_C])\<rparr>"

text \<open>The destination holds a stale copy of A that cannot be deleted.\<close>

definition stale_env :: env where
  "stale_env =
     demo_env\<lparr>ls_reply := (\<lambda>h p opts. if p = ''s:'' then Inr [file_A, file_B]
                                        else Inr [stale_A]),
              delete_reply := (\<lambda>h p. Some ''permission denied'')\<rparr>"

text \<open>Between two states no copy was made and the clock was not read backwards.\<close>

definition no_copy_between :: "state \<Rightarrow> state \<Rightarrow> bool" where
  "no_copy_between s s' = (copies (trace s') = copies (trace s) \<and> ticks s \<le> ticks s')"

section \<open>Properties\<close>

subsection \<open>Basic facts\<close>

lemmas run_defs =
  sync_files_def process_transfer_def process_file_def verify_copy_def get_files_to_copy_def
  get_cached_files_def check_remote_exists_def rclone_ls_def delete_file_def get_file_hash_def
  run_rclone_copy_def get_gdrive_free_space_percent_from_path_def extract_remote_name_def
  cap_handler_def int_field_def now_def logger_def hashes_match_def first_token_def
  is_space_def size_of_def md5_of_def is_dir_def dest_files_dict_def dt_ge_def replace_2300_def
  MAX_TRANSFER_GB_def Let_def is_quota_exceeded_def quota_keywords_def lower_def lower_char_def
  str_int_def digit_char_def copies_def deletions_def listings_def strip_def

lemmas sample_defs =
  init_state_def demo_env_def noon_def file_A_def file_B_def file_C_def stale_A_def

lemma logger_sel [simp]:
  "trace (logger lv n a s) = trace s"
  "cache (logger lv n a s) = cache s"
  "ticks (logger lv n a s) = ticks s"
  "logs (logger lv n a s) = logs s @ [(lv, n, a)]"
  by (simp_all add: logger_def)

lemma plan_loop_fst:
  "fst (plan_loop e dst d S acc s) =
     acc @ filter (\<lambda>f. case d (Path f) of
                          None \<Rightarrow> True
                        | Some g \<Rightarrow> md5_of f \<noteq> [] \<and> md5_of g \<noteq> [] \<and> md5_of f \<noteq> md5_of g) S"
  by (induction S arbitrary: acc s) (auto simp: Let_def split: option.splits prod.splits)

lemma dest_files_dict_Some:
  assumes "distinct (map Path D)"
  shows "dest_files_dict D p = Some g \<longleftrightarrow> g \<in> set D \<and> Path g = p"
proof -
  have "distinct (map fst (rev (map (\<lambda>f. (Path f, f)) D)))"
    using assms by (simp add: rev_map [symmetric] comp_def)
  then have "dest_files_dict D p = Some g \<longleftrightarrow> (p, g) \<in> set (rev (map (\<lambda>f. (Path f, f)) D))"
    unfolding dest_files_dict_def by (rule map_of_eq_Some_iff)
  then show ?thesis by auto
qed

lemma dest_files_dict_None: "dest_files_dict D p = None \<longleftrightarrow> p \<notin> Path ` set D"
  by (auto simp: dest_files_dict_def map_of_eq_None_iff image_iff)

subsection \<open>Counting calls\<close>

lemma copies_simps [simp]:
  "copies [] = 0"
  "copies (h @ h') = copies h + copies h'"
  "copies (Copyto a b # h) = Suc (copies h)"
  "copies (Ls p opts # h) = copies h"
  "copies (Hashsum p # h) = copies h"
  "copies (Delete p # h) = copies h"
  "copies (About p # h) = copies h"
  by (simp_all add: copies_def)

lemma deletions_simps [simp]:
  "deletions [] = 0"
  "deletions (h @ h') = deletions h + deletions h'"
  "deletions (Delete p # h) = Suc (deletions h)"
  "deletions (Ls p opts # h) = deletions h"
  "deletions (Hashsum p # h) = deletions h"
  "deletions (Copyto a b # h) = deletions h"
  "deletions (About p # h) = deletions h"
  by (simp_all add: deletions_def)

lemma get_file_hashD:
  "get_file_hash e p s = (r, s') \<Longrightarrow> trace s' = trace s @ [Hashsum p]"
  by (auto simp: get_file_hash_def Let_def split: sum.splits prod.splits if_splits)

lemma run_rclone_copyD:
  "run_rclone_copy e a b s = ((ok, msg), s') \<Longrightarrow>
     trace s' = trace s @ [Copyto a b] \<and> logs s' = logs s"
  by (auto simp: run_rclone_copy_def Let_def split: sum.splits prod.splits)

lemma delete_fileD:
  "delete_file e p s = (ok, s') \<Longrightarrow>
     trace s' = trace s @ [Delete p] \<and> (ok \<longleftrightarrow> delete_reply e (trace s) p = None)"
  by (auto simp: delete_file_def Let_def split: option.splits)

subsection \<open>Steps that copy nothing\<close>

lemma no_copy_refl [simp]: "no_copy_between s s"
  by (simp add: no_copy_between_def)

lemma no_copy_trans: "no_copy_between a b \<Longrightarrow> no_copy_between b c \<Longrightarrow> no_copy_between a c"
  by (simp add: no_copy_between_def)

lemma no_copy_logger [simp]:
  "no_copy_between s (logger lv n a s') = no_copy_between s s'"
  "no_copy_between (logger lv n a s) s' = no_copy_between s s'"
  by (simp_all add: no_copy_between_def)

lemma check_remote_exists_quiet:
  "check_remote_exists e p s = (x, s') \<Longrightarrow> no_copy_between s s'"
  by (auto simp: check_remote_exists_def rclone_ls_def no_copy_between_def Let_def
           split: sum.splits)

lemma delete_file_quiet: "delete_file e p s = (x, s') \<Longrightarrow> no_copy_between s s'"
  by (auto simp: delete_file_def no_copy_between_def Let_def split: option.splits)

lemma get_cached_files_quiet:
  "get_cached_files e p b s = (x, s') \<Longrightarrow> no_copy_between s s'"
  by (auto simp: get_cached_files_def now_def check_remote_exists_def rclone_ls_def
                 no_copy_between_def Let_def
           split: option.splits sum.splits if_splits)

lemma plan_loop_quiet:
  "plan_loop e dst d S acc s = (x, s') \<Longrightarrow> no_copy_between s s'"
proof (induction S arbitrary: acc s)
  case Nil
  then show ?case by simp
next
  case (Cons f S)
  show ?case
  proof (cases "d (Path f)")
    case None
    with Cons.prems have "plan_loop e dst d S (acc @ [f]) (logger INFO 181 [Path f] s) = (x, s')"
      by simp
    from Cons.IH [OF this] show ?thesis by simp
  next
    case (Some g)
    show ?thesis
    proof (cases "md5_of f \<noteq> [] \<and> md5_of g \<noteq> [] \<and> md5_of f \<noteq> md5_of g")
      case True
      obtain ok s1 where del: "delete_file e (dst @ ''/'' @ Path f)
          (logger INFO 177 [Path f, md5_of f, md5_of g] s) = (ok, s1)"
        by fastforce
      with Cons.prems Some True have "plan_loop e dst d S (acc @ [f]) s1 = (x, s')"
        by (simp add: Let_def)
      from Cons.IH [OF this] delete_file_quiet [OF del] show ?thesis
        by (auto intro: no_copy_trans)
    next
      case False
      with Cons.prems Some have "plan_loop e dst d S acc s = (x, s')"
        by (auto simp: Let_def)
      from Cons.IH [OF this] show ?thesis .
    qed
  qed
qed

lemma get_files_to_copy_quiet:
  assumes "get_files_to_copy e src dst s = (x, s')"
  shows "no_copy_between s s'"
proof -
  let ?s0 = "snd (now e s)"
  have n0: "no_copy_between s ?s0" by (simp add: now_def no_copy_between_def)
  show ?thesis
  proof (cases "cache ?s0 (PlanFile (md5_hex e src) (date (fst (now e s))))")
    case (Some plan)
    with assms have "s' = logger INFO 151 [] ?s0"
      by (auto simp: get_files_to_copy_def Let_def split: prod.splits)
    with n0 show ?thesis by simp
  next
    case None
    obtain S s1 where g1: "get_cached_files e src True ?s0 = (S, s1)" by fastforce
    have n1: "no_copy_between s s1"
      using n0 get_cached_files_quiet [OF g1] by (rule no_copy_trans)
    obtain gone s2 where g2:
      "(if S = [] then (let (ex, t) = check_remote_exists e src s1 in (\<not> ex, t))
        else (False, s1)) = (gone, s2)" by fastforce
    have n2: "no_copy_between s s2"
    proof (cases "S = []")
      case True
      obtain ex t where c: "check_remote_exists e src s1 = (ex, t)" by fastforce
      with g2 True have "s2 = t" by simp
      with n1 check_remote_exists_quiet [OF c] show ?thesis by (auto intro: no_copy_trans)
    next
      case False
      with g2 n1 show ?thesis by simp
    qed
    show ?thesis
    proof (cases gone)
      case True
      with assms None g1 g2 have "s' = logger ERROR 157 [src] s2"
        by (auto simp: get_files_to_copy_def Let_def split: prod.splits)
      with n2 show ?thesis by simp
    next
      case False
      obtain D s3 where g3: "get_cached_files e dst False s2 = (D, s3)" by fastforce
      obtain P s4 where g4: "plan_loop e dst (dest_files_dict D) S [] s3 = (P, s4)" by fastforce
      from assms None g1 g2 False g3 g4
      have "s' = s4\<lparr>cache := (cache s4)(PlanFile (md5_hex e src) (date (fst (now e s))) \<mapsto> P)\<rparr>"
        by (auto simp: get_files_to_copy_def Let_def split: prod.splits)
      moreover have "no_copy_between s s4"
        using n2 get_cached_files_quiet [OF g3] plan_loop_quiet [OF g4]
        by (blast intro: no_copy_trans)
      ultimately show ?thesis by (simp add: no_copy_between_def)
    qed
  qed
qed

lemma capacity_quiet:
  "get_gdrive_free_space_percent_from_path e p s = (x, s') \<Longrightarrow> no_copy_between s s'"
  by (auto simp: get_gdrive_free_space_percent_from_path_def no_copy_between_def Let_def
           split: sum.splits about_out.splits)

lemma process_file_late:
  "dt_ge (clock e (ticks s)) stop \<Longrightarrow>
     process_file e src dst free stop f tc ts s =
       (Return tc ts, logger INFO 278 [] (logger INFO 277 [] (snd (now e s))))"
  by (simp add: process_file_def now_def Let_def)

lemma files_loop_late:
  "dt_ge (clock e (ticks s)) stop \<Longrightarrow> files \<noteq> [] \<Longrightarrow>
     files_loop e src dst free stop files tc ts s =
       (Return tc ts, logger INFO 278 [] (logger INFO 277 [] (snd (now e s))))"
  by (cases files) (simp_all add: process_file_late)

lemma process_transfer_late:
  assumes late: "\<forall>n \<ge> ticks s. dt_ge (clock e n) stop"
      and run: "process_transfer e stop tr tc ts s = (r, s')"
  shows "no_copy_between s s' \<and> (r = Continue tc ts \<or> r = Return tc ts \<or> (\<exists>x. r = Raise x))"
proof -
  obtain src dst where tr: "tr = (src, dst)" by fastforce
  obtain c s1 where cap: "get_gdrive_free_space_percent_from_path e dst s = (c, s1)"
    by fastforce
  have n1: "no_copy_between s s1" using cap by (rule capacity_quiet)
  show ?thesis
  proof (cases c)
    case (Inl x)
    with run tr cap n1 show ?thesis by (auto simp: process_transfer_def)
  next
    case (Inr tup)
    show ?thesis
    proof (cases tup)
      case (Tuple2 a b)
      with run tr cap Inr n1 show ?thesis by (auto simp: process_transfer_def)
    next
      case (Tuple3 success percent free_space)
      show ?thesis
      proof (cases "\<not> success \<or> percent < 2")
        case True
        with run tr cap Inr Tuple3 n1 show ?thesis
          by (auto simp: process_transfer_def split: if_splits)
      next
        case False
        obtain ex s2 where chk: "check_remote_exists e src (logger INFO 256 [src, dst] s1) = (ex, s2)"
          by fastforce
        have n2: "no_copy_between s s2"
          using n1 check_remote_exists_quiet [OF chk] by (auto intro: no_copy_trans)
        show ?thesis
        proof (cases ex)
          case False
          with run tr cap Inr Tuple3 \<open>\<not> (\<not> success \<or> percent < 2)\<close> chk n2 show ?thesis
            by (auto simp: process_transfer_def Let_def)
        next
          case True
          obtain files s3 where pl: "get_files_to_copy e src dst s2 = (files, s3)" by fastforce
          have n3: "no_copy_between s s3"
            using n2 get_files_to_copy_quiet [OF pl] by (rule no_copy_trans)
          show ?thesis
          proof (cases "files = []")
            case True
            obtain sf s4 where g: "get_cached_files e src True s3 = (sf, s4)" by fastforce
            have n4: "no_copy_between s s4"
              using n3 get_cached_files_quiet [OF g] by (rule no_copy_trans)
            from run tr cap Inr Tuple3 \<open>\<not> (\<not> success \<or> percent < 2)\<close> chk \<open>ex\<close> pl True g n4
            show ?thesis
              by (auto simp: process_transfer_def Let_def)
          next
            case False
            have "ticks s \<le> ticks s3" using n3 by (simp add: no_copy_between_def)
            with late have "dt_ge (clock e (ticks (logger INFO 272 [src] s3))) stop" by simp
            from files_loop_late [OF this False]
            have "files_loop e src dst free_space stop files tc ts (logger INFO 272 [src] s3) =
                    (Return tc ts, logger INFO 278 [] (logger INFO 277 []
                        (snd (now e (logger INFO 272 [src] s3)))))" .
            with run tr cap Inr Tuple3 \<open>\<not> (\<not> success \<or> percent < 2)\<close> chk \<open>ex\<close> pl False
            have "r = Return tc ts"
              "s' = logger INFO 278 [] (logger INFO 277 [] (snd (now e (logger INFO 272 [src] s3))))"
              by (auto simp: process_transfer_def Let_def)
            with n3 show ?thesis by (simp add: now_def no_copy_between_def)
          qed
        qed
      qed
    qed
  qed
qed

lemma transfers_loop_late:
  assumes "\<forall>n \<ge> ticks s. dt_ge (clock e n) stop"
      and "transfers_loop e stop trs tc ts s = (r, s')"
  shows "no_copy_between s s' \<and> (r = Continue tc ts \<or> r = Return tc ts \<or> (\<exists>x. r = Raise x))"
  using assms
proof (induction trs arbitrary: s)
  case Nil
  then show ?case by simp
next
  case (Cons tr trs)
  obtain r1 s1 where p: "process_transfer e stop tr tc ts s = (r1, s1)" by fastforce
  from process_transfer_late [OF Cons.prems(1) p]
  have n1: "no_copy_between s s1"
    and r1: "r1 = Continue tc ts \<or> r1 = Return tc ts \<or> (\<exists>x. r1 = Raise x)" by simp_all
  show ?case
  proof (cases "r1 = Continue tc ts")
    case True
    with Cons.prems(2) p have rest: "transfers_loop e stop trs tc ts s1 = (r, s')" by simp
    have "\<forall>n \<ge> ticks s1. dt_ge (clock e n) stop"
      using Cons.prems(1) n1 by (simp add: no_copy_between_def)
    from Cons.IH [OF this rest] n1 show ?thesis by (auto intro: no_copy_trans)
  next
    case False
    with r1 Cons.prems(2) p have "r = r1" "s' = s1" by auto
    with n1 r1 show ?thesis by simp
  qed
qed


lemma dt_ge_trans: "dt_ge a b \<Longrightarrow> dt_ge b c \<Longrightarrow> dt_ge a c"
  by (auto simp: dt_ge_def)

subsection \<open>The plan is the difference of the snapshots\<close>

text \<open>
  The loop of \<open>get_files_to_copy\<close> keeps, in the order of the source list, the entries
  whose path is absent from the destination and those whose path is there with both md5
  hashes known (non-empty) and unequal.
\<close>

lemma plan_loop_is_diff:
  assumes "distinct (map Path D)"
  shows "fst (plan_loop e destination (dest_files_dict D) S [] s) =
           filter (\<lambda>f. Path f \<notin> Path ` set D \<or>
                       (\<exists>g \<in> set D. Path g = Path f \<and> md5_of f \<noteq> [] \<and> md5_of g \<noteq> []
                                      \<and> md5_of f \<noteq> md5_of g)) S"
proof -
  have "(case dest_files_dict D (Path f) of
           None \<Rightarrow> True
         | Some g \<Rightarrow> md5_of f \<noteq> [] \<and> md5_of g \<noteq> [] \<and> md5_of f \<noteq> md5_of g)
        \<longleftrightarrow> (Path f \<notin> Path ` set D \<or>
             (\<exists>g \<in> set D. Path g = Path f \<and> md5_of f \<noteq> [] \<and> md5_of g \<noteq> []
                            \<and> md5_of f \<noteq> md5_of g))" for f
  proof (cases "dest_files_dict D (Path f)")
    case None
    then have "Path f \<notin> Path ` set D"
      by (simp add: dest_files_dict_None)
    with None show ?thesis by simp
  next
    case (Some g)
    then have g: "g \<in> set D" "Path g = Path f"
      using dest_files_dict_Some [OF assms] by auto
    have uniq: "g' = g" if "g' \<in> set D" "Path g' = Path f" for g'
      using dest_files_dict_Some [OF assms, of "Path f" g'] that Some by simp
    have present: "Path f \<in> Path ` set D"
      using g(2) [symmetric] g(1) by (rule image_eqI)
    have "(\<exists>g' \<in> set D. Path g' = Path f \<and> md5_of f \<noteq> [] \<and> md5_of g' \<noteq> []
                          \<and> md5_of f \<noteq> md5_of g')
          \<longleftrightarrow> (md5_of f \<noteq> [] \<and> md5_of g \<noteq> [] \<and> md5_of f \<noteq> md5_of g)"
      using g uniq by blast
    with Some present show ?thesis by simp
  qed
  then show ?thesis by (simp add: plan_loop_fst)
qed


text \<open>
  What the loop does to the history and the log, and what \<open>get_files_to_copy\<close> returns
  when no plan of the day is cached.
\<close>

lemma delete_file_logsD:
  "delete_file e p s = (ok, s') \<Longrightarrow>
     set (logs s) \<subseteq> set (logs s') \<and>
     (\<forall>err. delete_reply e (trace s) p = Some err \<longrightarrow> (WARNING, 143, [p, err]) \<in> set (logs s'))"
  by (auto simp: delete_file_def Let_def split: option.splits)

lemma plan_loop_grows:
  "plan_loop e dst d S acc s = (P, s') \<Longrightarrow>
     set (trace s) \<subseteq> set (trace s') \<and> set (logs s) \<subseteq> set (logs s')"
proof (induction S arbitrary: acc s)
  case Nil
  then show ?case by simp
next
  case (Cons f S)
  show ?case
  proof (cases "d (Path f)")
    case None
    with Cons.prems have "plan_loop e dst d S (acc @ [f]) (logger INFO 181 [Path f] s) = (P, s')"
      by simp
    from Cons.IH [OF this] show ?thesis by simp
  next
    case (Some g)
    show ?thesis
    proof (cases "md5_of f \<noteq> [] \<and> md5_of g \<noteq> [] \<and> md5_of f \<noteq> md5_of g")
      case True
      obtain ok s1 where del: "delete_file e (dst @ ''/'' @ Path f)
          (logger INFO 177 [Path f, md5_of f, md5_of g] s) = (ok, s1)"
        by fastforce
      with Cons.prems Some True have "plan_loop e dst d S (acc @ [f]) s1 = (P, s')"
        by (simp add: Let_def)
      from Cons.IH [OF this] delete_fileD [OF del] delete_file_logsD [OF del]
      show ?thesis by auto
    next
      case False
      with Cons.prems Some have "plan_loop e dst d S acc s = (P, s')"
        by (auto simp: Let_def)
      from Cons.IH [OF this] show ?thesis .
    qed
  qed
qed

lemma plan_loop_deletes:
  assumes "f \<in> set S" and "d (Path f) = Some g"
      and "md5_of f \<noteq> []" and "md5_of g \<noteq> []" and "md5_of f \<noteq> md5_of g"
      and "plan_loop e dst d S acc s = (P, s')"
  shows "Delete (dst @ ''/'' @ Path f) \<in> set (trace s') \<and>
         ((\<forall>h. delete_reply e h (dst @ ''/'' @ Path f) = Some err) \<longrightarrow>
            (WARNING, 143, [dst @ ''/'' @ Path f, err]) \<in> set (logs s'))"
  using assms(1,6)
proof (induction S arbitrary: acc s)
  case Nil
  then show ?case by simp
next
  case (Cons x S)
  show ?case
  proof (cases "x = f")
    case True
    obtain ok s1 where del: "delete_file e (dst @ ''/'' @ Path f)
          (logger INFO 177 [Path f, md5_of f, md5_of g] s) = (ok, s1)"
      by fastforce
    with Cons.prems(2) True assms(2-5) have rest: "plan_loop e dst d S (acc @ [f]) s1 = (P, s')"
      by (simp add: Let_def)
    from delete_fileD [OF del] have "Delete (dst @ ''/'' @ Path f) \<in> set (trace s1)"
      by simp
    moreover from delete_file_logsD [OF del]
    have "(\<forall>h. delete_reply e h (dst @ ''/'' @ Path f) = Some err) \<longrightarrow>
            (WARNING, 143, [dst @ ''/'' @ Path f, err]) \<in> set (logs s1)"
      by simp
    ultimately show ?thesis using plan_loop_grows [OF rest] by blast
  next
    case False
    with Cons.prems(1) have mem: "f \<in> set S" by simp
    show ?thesis
    proof (cases "d (Path x)")
      case None
      with Cons.prems(2) have "plan_loop e dst d S (acc @ [x]) (logger INFO 181 [Path x] s) = (P, s')"
        by simp
      from Cons.IH [OF mem this] show ?thesis .
    next
      case (Some gx)
      show ?thesis
      proof (cases "md5_of x \<noteq> [] \<and> md5_of gx \<noteq> [] \<and> md5_of x \<noteq> md5_of gx")
        case True
        obtain ok s1 where del: "delete_file e (dst @ ''/'' @ Path x)
            (logger INFO 177 [Path x, md5_of x, md5_of gx] s) = (ok, s1)"
          by fastforce
        with Cons.prems(2) Some True have "plan_loop e dst d S (acc @ [x]) s1 = (P, s')"
          by (simp add: Let_def)
        from Cons.IH [OF mem this] show ?thesis .
      next
        case False
        with Cons.prems(2) Some have "plan_loop e dst d S acc s = (P, s')"
          by (auto simp: Let_def)
        from Cons.IH [OF mem this] show ?thesis .
      qed
    qed
  qed
qed

lemma get_files_to_copy_uncached:
  assumes "cache s (PlanFile (md5_hex e src) (date (clock e (ticks s)))) = None"
      and "get_cached_files e src True (s\<lparr>ticks := Suc (ticks s)\<rparr>) = (S, s1)"
      and "S \<noteq> []"
      and "get_cached_files e dst False s1 = (D, s2)"
      and "plan_loop e dst (dest_files_dict D) S [] s2 = (P, s4)"
  shows "get_files_to_copy e src dst s =
           (P, s4\<lparr>cache := (cache s4)(PlanFile (md5_hex e src) (date (clock e (ticks s))) \<mapsto> P)\<rparr>)"
  using assms
  by (simp add: get_files_to_copy_def now_def Let_def)

lemma get_files_to_copy_empty_source:
  assumes "cache s (PlanFile (md5_hex e src) (date (clock e (ticks s)))) = None"
      and "get_cached_files e src True (s\<lparr>ticks := Suc (ticks s)\<rparr>) = ([], s1)"
  shows "fst (get_files_to_copy e src dst s) = []"
  using assms
  by (auto simp: get_files_to_copy_def now_def Let_def split: prod.splits)

text \<open>
  C4. When no plan of the day is cached, the source snapshot is \<open>S\<close> and the destination
  snapshot is \<open>D\<close> (with unique paths), \<open>get_files_to_copy\<close> returns, in the order of
  \<open>S\<close>, exactly the entries of \<open>S\<close> whose path is absent from \<open>D\<close> and those whose
  path is in \<open>D\<close> with both md5 hashes known (non-empty) and unequal. So an entry present
  in \<open>D\<close> with either hash unknown is not in the plan. The destination snapshot is
  fetched after the source snapshot, and after the existence check when the source
  snapshot is empty.
\<close>

theorem get_files_to_copy_is_diff:
  assumes nocache: "cache s (PlanFile (md5_hex e src) (date (clock e (ticks s)))) = None"
      and source: "get_cached_files e src True (s\<lparr>ticks := Suc (ticks s)\<rparr>) = (S, s1)"
      and dest: "get_cached_files e dst False
                   (if S = [] then snd (check_remote_exists e src s1) else s1) = (D, s2)"
      and uniq: "distinct (map Path D)"
  shows "fst (get_files_to_copy e src dst s) =
           filter (\<lambda>f. Path f \<notin> Path ` set D \<or>
                       (\<exists>g \<in> set D. Path g = Path f \<and> md5_of f \<noteq> [] \<and> md5_of g \<noteq> []
                                      \<and> md5_of f \<noteq> md5_of g)) S"
proof (cases "S = []")
  case True
  with nocache source show ?thesis
    by (simp add: get_files_to_copy_empty_source)
next
  case False
  with dest have dest': "get_cached_files e dst False s1 = (D, s2)" by simp
  obtain P s4 where loop: "plan_loop e dst (dest_files_dict D) S [] s2 = (P, s4)"
    by fastforce
  from get_files_to_copy_uncached [OF nocache source False dest' loop]
  have "fst (get_files_to_copy e src dst s) = fst (plan_loop e dst (dest_files_dict D) S [] s2)"
    using loop by simp
  with plan_loop_is_diff [OF uniq] show ?thesis by simp
qed

theorem get_files_to_copy_is_diff_witness:
  "cache init_state (PlanFile (md5_hex diff_env ''s:'')
      (date (clock diff_env (ticks init_state)))) = None \<and>
   fst (get_cached_files diff_env ''s:'' True (init_state\<lparr>ticks := Suc (ticks init_state)\<rparr>))
     = [file_A, file_B, file_C] \<and>
   fst (get_cached_files diff_env ''d:'' False
          (snd (get_cached_files diff_env ''s:'' True
                  (init_state\<lparr>ticks := Suc (ticks init_state)\<rparr>))))
     = [stale_A, file_C] \<and>
   distinct (map Path [stale_A, file_C]) \<and>
   fst (get_files_to_copy diff_env ''s:'' ''d:'' init_state) = [file_A, file_B]"
proof -
  define s1 where "s1 = snd (get_cached_files diff_env ''s:'' True
                               (init_state\<lparr>ticks := Suc (ticks init_state)\<rparr>))"
  define s2 where "s2 = snd (get_cached_files diff_env ''d:'' False s1)"
  have nocache: "cache init_state (PlanFile (md5_hex diff_env ''s:'')
      (date (clock diff_env (ticks init_state)))) = None"
    by (simp add: init_state_def)
  have v1: "fst (get_cached_files diff_env ''s:'' True
                   (init_state\<lparr>ticks := Suc (ticks init_state)\<rparr>)) = [file_A, file_B, file_C]"
    by (simp add: run_defs sample_defs diff_env_def)
  then have source: "get_cached_files diff_env ''s:'' True
                   (init_state\<lparr>ticks := Suc (ticks init_state)\<rparr>)
                     = ([file_A, file_B, file_C], s1)"
    by (simp add: s1_def prod_eq_iff)
  have v2: "fst (get_cached_files diff_env ''d:'' False s1) = [stale_A, file_C]"
    by (simp add: s1_def run_defs sample_defs diff_env_def)
  then have dest: "get_cached_files diff_env ''d:'' False
                     (if [file_A, file_B, file_C] = []
                      then snd (check_remote_exists diff_env ''s:'' s1) else s1)
                     = ([stale_A, file_C], s2)"
    by (simp add: s2_def prod_eq_iff)
  have uniq: "distinct (map Path [stale_A, file_C])"
    by (simp add: stale_A_def file_C_def)
  from get_files_to_copy_is_diff [OF nocache source dest uniq]
  have "fst (get_files_to_copy diff_env ''s:'' ''d:'' init_state) = [file_A, file_B]"
    by (simp add: stale_A_def file_A_def file_B_def file_C_def md5_of_def)
  with nocache v1 v2 uniq show ?thesis unfolding s1_def by blast
qed

subsection \<open>A remote tree that does not answer the existence probe\<close>

text \<open>
  C7, as the claim states it, fails in its last part: for a destination whose existence
  probe fails, with no snapshot of the day cached, the log of \<open>get_cached_files\<close> holds
  an error record for the condition, the one of line 50 that \<open>check_remote_exists\<close>
  writes for every caller.
\<close>

theorem missing_destination_logs_error:
  "cache init_state (SnapshotFile ''d:'' False 0) = None \<and>
   ls_reply unreachable_env (trace init_state) ''d:'' MaxDepth1 = Inl ''directory not found'' \<and>
   fst (get_cached_files unreachable_env ''d:'' False init_state) = [] \<and>
   (ERROR, 50, [''d:'', ''directory not found''])
     \<in> set (logs (snd (get_cached_files unreachable_env ''d:'' False init_state)))"
proof -
  have a: "cache init_state (SnapshotFile ''d:'' False 0) = None"
    by (simp add: init_state_def)
  have b: "ls_reply unreachable_env (trace init_state) ''d:'' MaxDepth1
             = Inl ''directory not found''"
    by (simp add: unreachable_env_def)
  have c: "fst (get_cached_files unreachable_env ''d:'' False init_state) = []"
    by (simp add: run_defs sample_defs unreachable_env_def)
  have d: "(ERROR, 50, [''d:'', ''directory not found''])
     \<in> set (logs (snd (get_cached_files unreachable_env ''d:'' False init_state)))"
    by (simp add: run_defs sample_defs unreachable_env_def)
  from a b c d show ?thesis by blast
qed

text \<open>
  C7, amended. When no snapshot of the day is cached and the existence probe fails,
  \<open>get_cached_files\<close> returns the empty snapshot, after the probe has logged its failure
  as an error (line 50). For a source it logs a second error (line 68) and leaves the
  cache as it was. For a destination it writes the empty snapshot to the cache and adds
  only an informational record (line 71).
\<close>

theorem get_cached_files_missing_remote:
  assumes "cache s (SnapshotFile (md5_hex e p) is_source (date (clock e (ticks s)))) = None"
      and "ls_reply e (trace s) p MaxDepth1 = Inl err"
  shows "get_cached_files e p is_source s =
           ([], s\<lparr>ticks := Suc (ticks s),
                   trace := trace s @ [Ls p MaxDepth1],
                   logs := logs s @ [(DEBUG, 44, [p]), (ERROR, 50, [p, err]),
                                     if is_source then (ERROR, 68, [p]) else (INFO, 71, [p])],
                   cache := if is_source then cache s
                            else (cache s)(SnapshotFile (md5_hex e p) False
                                             (date (clock e (ticks s))) \<mapsto> [])\<rparr>)"
proof (cases is_source)
  case True
  with assms show ?thesis
    by (simp add: get_cached_files_def now_def check_remote_exists_def rclone_ls_def logger_def
                  Let_def)
next
  case False
  with assms show ?thesis
    by (simp add: get_cached_files_def now_def check_remote_exists_def rclone_ls_def logger_def
                  Let_def)
qed




theorem get_cached_files_missing_remote_witness:
  "fst (get_cached_files unreachable_env ''s:'' True init_state) = [] \<and>
   cache (snd (get_cached_files unreachable_env ''s:'' True init_state))
     (SnapshotFile ''s:'' True 0) = None \<and>
   logs (snd (get_cached_files unreachable_env ''s:'' True init_state)) =
     [(DEBUG, 44, [''s:'']), (ERROR, 50, [''s:'', ''directory not found'']),
      (ERROR, 68, [''s:''])] \<and>
   fst (get_cached_files unreachable_env ''d:'' False init_state) = [] \<and>
   cache (snd (get_cached_files unreachable_env ''d:'' False init_state))
     (SnapshotFile ''d:'' False 0) = Some [] \<and>
   logs (snd (get_cached_files unreachable_env ''d:'' False init_state)) =
     [(DEBUG, 44, [''d:'']), (ERROR, 50, [''d:'', ''directory not found'']),
      (INFO, 71, [''d:''])]"
  using get_cached_files_missing_remote
          [of init_state unreachable_env "''s:''" True "''directory not found''"]
        get_cached_files_missing_remote
          [of init_state unreachable_env "''d:''" False "''directory not found''"]
  by (simp add: unreachable_env_def demo_env_def init_state_def noon_def)

subsection \<open>A destination that is almost full\<close>

text \<open>
  C8. When the capacity query of a pair succeeds and the free percentage it computes is
  below 2, \<open>process_transfer\<close> logs the error of line 254 and goes on to the next pair.
  The only external call made for the pair is the capacity query: no listing call is made.
\<close>

theorem low_space_skips_pair:
  assumes "CHR '':'' \<in> set dst"
      and "about_reply e (trace s) (takeWhile (\<lambda>c. c \<noteq> CHR '':'') dst @ '':'')
             = Object (IntLike t) (IntLike f)"
      and "(if t > 0 then float_percent e f t else 0) < 2"
  shows "process_transfer e stop (src, dst) tc ts s =
           (Continue tc ts,
            s\<lparr>trace := trace s @ [About (takeWhile (\<lambda>c. c \<noteq> CHR '':'') dst @ '':'')],
              logs := logs s @ [(ERROR, 254, [dst])]\<rparr>)
         \<and> listings (trace (snd (process_transfer e stop (src, dst) tc ts s)))
             = listings (trace s)"
  using assms
  by (simp add: process_transfer_def get_gdrive_free_space_percent_from_path_def
                extract_remote_name_def int_field_def logger_def Let_def listings_def)

theorem low_space_skips_pair_witness:
  "CHR '':'' \<in> set ''d:'' \<and>
   about_reply full_env (trace init_state) (takeWhile (\<lambda>c. c \<noteq> CHR '':'') ''d:'' @ '':'')
     = Object (IntLike 1000) (IntLike 15) \<and>
   (if (1000::int) > 0 then float_percent full_env 15 1000 else 0) < 2 \<and>
   fst (process_transfer full_env (replace_2300 noon) (''s:'', ''d:'') 0 0 init_state)
     = Continue 0 0 \<and>
   trace (snd (process_transfer full_env (replace_2300 noon) (''s:'', ''d:'') 0 0 init_state))
     = [About ''d:''] \<and>
   listings (trace (snd (process_transfer full_env (replace_2300 noon) (''s:'', ''d:'') 0 0
                           init_state))) = 0"
  using low_space_skips_pair
          [where dst = "''d:''" and e = full_env and s = init_state and t = 1000 and f = 15
             and stop = "replace_2300 noon" and src = "''s:''" and tc = 0 and ts = 0]
  by (simp add: full_env_def demo_env_def init_state_def listings_def)

subsection \<open>A file that does not fit\<close>

text \<open>
  C6. For a planned file whose size added to the bytes copied so far exceeds
  \<open>free_space\<close>, no external call is made, so no copy is attempted. Unless the run stops
  at this file for its deadline or its volume limit (lines 276 and 282 come first), the
  file is skipped with the error of line 292, the counters stay as they are and the loop
  goes on with the next file. \<open>free_space\<close> is the reading taken at the start of the
  pair: the loop passes it on unchanged.
\<close>

theorem space_guard_skips_file:
  assumes "ts + size_of f > free"
  shows "trace (snd (process_file e src dst free stop f tc ts s)) = trace s
       \<and> (\<not> dt_ge (clock e (ticks s)) stop \<and> ts < MAX_TRANSFER_GB * 1024 ^ 3 \<longrightarrow>
            process_file e src dst free stop f tc ts s =
              (Continue tc ts,
               s\<lparr>ticks := Suc (ticks s),
                 logs := logs s @ [(INFO, 281, []), (ERROR, 292, [dst, Path f])]\<rparr>)
            \<and> files_loop e src dst free stop (f # rest) tc ts s =
                files_loop e src dst free stop rest tc ts
                  (s\<lparr>ticks := Suc (ticks s),
                     logs := logs s @ [(INFO, 281, []), (ERROR, 292, [dst, Path f])]\<rparr>))"
  using assms
  by (simp add: process_file_def now_def logger_def Let_def)

theorem space_guard_skips_file_witness:
  "0 + size_of file_A > 5 \<and>
   \<not> dt_ge (clock demo_env (ticks init_state)) (replace_2300 noon) \<and>
   (0::int) < MAX_TRANSFER_GB * 1024 ^ 3 \<and>
   process_file demo_env ''s:'' ''d:'' 5 (replace_2300 noon) file_A 0 0 init_state =
     (Continue 0 0,
      init_state\<lparr>ticks := 1, logs := [(INFO, 281, []), (ERROR, 292, [''d:'', ''A''])]\<rparr>) \<and>
   trace (snd (process_file demo_env ''s:'' ''d:'' 5 (replace_2300 noon) file_A 0 0 init_state))
     = [] \<and>
   trace (snd (files_loop demo_env ''s:'' ''d:'' 5 (replace_2300 noon) [file_A] 0 0 init_state))
     = []"
  using space_guard_skips_file
          [where e = demo_env and s = init_state and stop = "replace_2300 noon" and ts = 0
             and f = file_A and free = 5 and src = "''s:''" and dst = "''d:''" and tc = 0
             and rest = "[]"]
  by (simp add: demo_env_def init_state_def noon_def replace_2300_def dt_ge_def
                MAX_TRANSFER_GB_def size_of_def file_A_def)

subsection \<open>A stale destination file\<close>

text \<open>
  C10. Let no plan of the day be cached and let a source entry have its path in the
  destination snapshot with both hashes known and unequal. Then, in every environment and
  so whatever \<open>delete_file\<close> returns, \<open>get_files_to_copy\<close> attempts the deletion of
  the destination file, returns a plan that holds the entry and writes that plan to the
  cache. When the deletions of that file fail, the warning of line 143 is in the log.
\<close>

theorem stale_entry_stays_planned:
  assumes nocache: "cache s (PlanFile (md5_hex e src) (date (clock e (ticks s)))) = None"
      and source: "get_cached_files e src True (s\<lparr>ticks := Suc (ticks s)\<rparr>) = (S, s1)"
      and dest: "get_cached_files e dst False s1 = (D, s2)"
      and mem: "f \<in> set S"
      and present: "dest_files_dict D (Path f) = Some g"
      and known: "md5_of f \<noteq> []" "md5_of g \<noteq> []"
      and differ: "md5_of f \<noteq> md5_of g"
  shows "f \<in> set (fst (get_files_to_copy e src dst s))
       \<and> Delete (dst @ ''/'' @ Path f) \<in> set (trace (snd (get_files_to_copy e src dst s)))
       \<and> cache (snd (get_files_to_copy e src dst s))
             (PlanFile (md5_hex e src) (date (clock e (ticks s))))
           = Some (fst (get_files_to_copy e src dst s))
       \<and> ((\<forall>h. delete_reply e h (dst @ ''/'' @ Path f) = Some err) \<longrightarrow>
            (WARNING, 143, [dst @ ''/'' @ Path f, err])
              \<in> set (logs (snd (get_files_to_copy e src dst s))))"
proof -
  from mem have ne: "S \<noteq> []" by auto
  obtain P s4 where loop: "plan_loop e dst (dest_files_dict D) S [] s2 = (P, s4)"
    by fastforce
  note run = get_files_to_copy_uncached [OF nocache source ne dest loop]
  have "P = fst (plan_loop e dst (dest_files_dict D) S [] s2)" using loop by simp
  with mem present known differ have planned: "f \<in> set P"
    by (simp add: plan_loop_fst)
  from plan_loop_deletes [OF mem present known differ loop, of err]
  have "Delete (dst @ ''/'' @ Path f) \<in> set (trace s4)"
    and "(\<forall>h. delete_reply e h (dst @ ''/'' @ Path f) = Some err) \<longrightarrow>
            (WARNING, 143, [dst @ ''/'' @ Path f, err]) \<in> set (logs s4)"
    by simp_all
  with planned run show ?thesis by simp
qed

theorem stale_entry_stays_planned_witness:
  "cache init_state (PlanFile (md5_hex stale_env ''s:'')
      (date (clock stale_env (ticks init_state)))) = None \<and>
   fst (get_cached_files stale_env ''s:'' True (init_state\<lparr>ticks := Suc (ticks init_state)\<rparr>))
     = [file_A, file_B] \<and>
   fst (get_cached_files stale_env ''d:'' False
          (snd (get_cached_files stale_env ''s:'' True
                  (init_state\<lparr>ticks := Suc (ticks init_state)\<rparr>))))
     = [stale_A] \<and>
   file_A \<in> set [file_A, file_B] \<and>
   dest_files_dict [stale_A] (Path file_A) = Some stale_A \<and>
   md5_of file_A \<noteq> [] \<and> md5_of stale_A \<noteq> [] \<and> md5_of file_A \<noteq> md5_of stale_A \<and>
   delete_reply stale_env [] (''d:'' @ ''/'' @ Path file_A) = Some ''permission denied'' \<and>
   file_A \<in> set (fst (get_files_to_copy stale_env ''s:'' ''d:'' init_state)) \<and>
   Delete (''d:'' @ ''/'' @ Path file_A)
     \<in> set (trace (snd (get_files_to_copy stale_env ''s:'' ''d:'' init_state))) \<and>
   (WARNING, 143, [''d:'' @ ''/'' @ Path file_A, ''permission denied''])
     \<in> set (logs (snd (get_files_to_copy stale_env ''s:'' ''d:'' init_state)))"
proof -
  define s1 where "s1 = snd (get_cached_files stale_env ''s:'' True
                               (init_state\<lparr>ticks := Suc (ticks init_state)\<rparr>))"
  define s2 where "s2 = snd (get_cached_files stale_env ''d:'' False s1)"
  have nocache: "cache init_state (PlanFile (md5_hex stale_env ''s:'')
      (date (clock stale_env (ticks init_state)))) = None"
    by (simp add: init_state_def)
  have v1: "fst (get_cached_files stale_env ''s:'' True
                   (init_state\<lparr>ticks := Suc (ticks init_state)\<rparr>)) = [file_A, file_B]"
    by (simp add: run_defs sample_defs stale_env_def)
  then have source: "get_cached_files stale_env ''s:'' True
                   (init_state\<lparr>ticks := Suc (ticks init_state)\<rparr>) = ([file_A, file_B], s1)"
    by (simp add: s1_def prod_eq_iff)
  have v2: "fst (get_cached_files stale_env ''d:'' False s1) = [stale_A]"
    by (simp add: s1_def run_defs sample_defs stale_env_def)
  then have dest: "get_cached_files stale_env ''d:'' False s1 = ([stale_A], s2)"
    by (simp add: s2_def prod_eq_iff)
  have mem: "file_A \<in> set [file_A, file_B]" by simp
  have present: "dest_files_dict [stale_A] (Path file_A) = Some stale_A"
    by (simp add: dest_files_dict_def stale_A_def file_A_def)
  have k1: "md5_of file_A \<noteq> []" and k2: "md5_of stale_A \<noteq> []"
    and differ: "md5_of file_A \<noteq> md5_of stale_A"
    by (simp_all add: md5_of_def stale_A_def file_A_def)
  have fails: "\<forall>h. delete_reply stale_env h (''d:'' @ ''/'' @ Path file_A)
                 = Some ''permission denied''"
    by (simp add: stale_env_def demo_env_def)
  then have fail0: "delete_reply stale_env [] (''d:'' @ ''/'' @ Path file_A)
                      = Some ''permission denied''"
    by blast
  note inst = stale_entry_stays_planned
                [where e = stale_env and src = "''s:''" and dst = "''d:''" and s = init_state
                   and S = "[file_A, file_B]" and D = "[stale_A]" and f = file_A
                   and g = stale_A and err = "''permission denied''",
                 OF nocache source dest mem present k1 k2 differ]
  from inst have planned: "file_A \<in> set (fst (get_files_to_copy stale_env ''s:'' ''d:'' init_state))"
    by blast
  from inst have deleted: "Delete (''d:'' @ ''/'' @ Path file_A)
     \<in> set (trace (snd (get_files_to_copy stale_env ''s:'' ''d:'' init_state)))"
    by blast
  from inst fails have warned: "(WARNING, 143, [''d:'' @ ''/'' @ Path file_A, ''permission denied''])
     \<in> set (logs (snd (get_files_to_copy stale_env ''s:'' ''d:'' init_state)))"
    by blast
  from nocache v1 v2 mem present k1 k2 differ fail0 planned deleted warned
  show ?thesis unfolding s1_def by blast
qed

subsection \<open>A capacity query that fails\<close>

text \<open>
  C1. The claim is that a failed capacity query is logged and the run goes on with the
  next pair. In the code the failure returns of \<open>get_gdrive_free_space_percent_from_path\<close>
  are tuples of two, which line 249 unpacks into three names: for a destination without a
  colon, for a failing \<open>rclone about\<close> and for a payload without the key \<open>free\<close>, a run
  over two pairs ends with ValueError raised at the first pair, and no call is made for
  the second pair.
\<close>

theorem capacity_failure_raises:
  "fst (get_gdrive_free_space_percent_from_path broken_about_env ''nocolon'' init_state)
     = Inr (Tuple2 False InputError) \<and>
   fst (sync_files broken_about_env [(''s:'', ''nocolon''), (''s:'', ''d:'')] init_state)
     = Raise ValueError \<and>
   trace (snd (sync_files broken_about_env [(''s:'', ''nocolon''), (''s:'', ''d:'')] init_state))
     = [] \<and>
   fst (get_gdrive_free_space_percent_from_path broken_about_env ''down:x'' init_state)
     = Inr (Tuple2 False (RcloneError ''connection refused'')) \<and>
   fst (sync_files broken_about_env [(''s:'', ''down:x''), (''s:'', ''d:'')] init_state)
     = Raise ValueError \<and>
   trace (snd (sync_files broken_about_env [(''s:'', ''down:x''), (''s:'', ''d:'')] init_state))
     = [About ''down:''] \<and>
   fst (get_gdrive_free_space_percent_from_path broken_about_env ''nofree:x'' init_state)
     = Inr (Tuple2 False JsonError) \<and>
   fst (sync_files broken_about_env [(''s:'', ''nofree:x''), (''s:'', ''d:'')] init_state)
     = Raise ValueError \<and>
   trace (snd (sync_files broken_about_env [(''s:'', ''nofree:x''), (''s:'', ''d:'')] init_state))
     = [About ''nofree:'']"
proof -
  have a1: "fst (get_gdrive_free_space_percent_from_path broken_about_env ''nocolon'' init_state)
     = Inr (Tuple2 False InputError)"
    by (simp add: run_defs sample_defs broken_about_env_def)
  have a2: "fst (sync_files broken_about_env [(''s:'', ''nocolon''), (''s:'', ''d:'')] init_state)
     = Raise ValueError"
    by (simp add: run_defs sample_defs broken_about_env_def)
  have a3: "trace (snd (sync_files broken_about_env [(''s:'', ''nocolon''), (''s:'', ''d:'')]
                          init_state)) = []"
    by (simp add: run_defs sample_defs broken_about_env_def)
  have b1: "fst (get_gdrive_free_space_percent_from_path broken_about_env ''down:x'' init_state)
     = Inr (Tuple2 False (RcloneError ''connection refused''))"
    by (simp add: run_defs sample_defs broken_about_env_def)
  have b2: "fst (sync_files broken_about_env [(''s:'', ''down:x''), (''s:'', ''d:'')] init_state)
     = Raise ValueError"
    by (simp add: run_defs sample_defs broken_about_env_def)
  have b3: "trace (snd (sync_files broken_about_env [(''s:'', ''down:x''), (''s:'', ''d:'')]
                          init_state)) = [About ''down:'']"
    by (simp add: run_defs sample_defs broken_about_env_def)
  have c1: "fst (get_gdrive_free_space_percent_from_path broken_about_env ''nofree:x'' init_state)
     = Inr (Tuple2 False JsonError)"
    by (simp add: run_defs sample_defs broken_about_env_def)
  have c2: "fst (sync_files broken_about_env [(''s:'', ''nofree:x''), (''s:'', ''d:'')] init_state)
     = Raise ValueError"
    by (simp add: run_defs sample_defs broken_about_env_def)
  have c3: "trace (snd (sync_files broken_about_env [(''s:'', ''nofree:x''), (''s:'', ''d:'')]
                          init_state)) = [About ''nofree:'']"
    by (simp add: run_defs sample_defs broken_about_env_def)
  from a1 a2 a3 b1 b2 b3 c1 c2 c3 show ?thesis by blast
qed

subsection \<open>The plan cache and the destination\<close>

text \<open>
  A plan cached for the source and the day is returned as it is, with no external call,
  whatever the destination.
\<close>

lemma cached_plan_is_reused:
  assumes "cache s (PlanFile (md5_hex e src) (date (clock e (ticks s)))) = Some plan"
  shows "get_files_to_copy e src dst s =
           (plan, s\<lparr>ticks := Suc (ticks s), logs := logs s @ [(INFO, 151, [])]\<rparr>)"
  using assms
  by (simp add: get_files_to_copy_def now_def logger_def Let_def)

text \<open>
  C2. The claim is that plans for one source and different destinations are derived
  independently. The cached plan is stored under the source and the day only: after the
  plan for \<open>(s:, d1:)\<close>, which is empty since \<open>d1:\<close> already holds A, a call for
  \<open>(s:, d2:)\<close> makes no external call and returns that empty plan, although \<open>d2:\<close> is
  empty and the plan derived for it alone is \<open>[A]\<close>.
\<close>

theorem plan_cache_ignores_destination:
  "fst (get_files_to_copy two_dest_env ''s:'' ''d2:'' init_state) = [file_A] \<and>
   fst (get_files_to_copy two_dest_env ''s:'' ''d1:'' init_state) = [] \<and>
   fst (get_files_to_copy two_dest_env ''s:'' ''d2:''
          (snd (get_files_to_copy two_dest_env ''s:'' ''d1:'' init_state))) = [] \<and>
   trace (snd (get_files_to_copy two_dest_env ''s:'' ''d2:''
                 (snd (get_files_to_copy two_dest_env ''s:'' ''d1:'' init_state)))) =
     trace (snd (get_files_to_copy two_dest_env ''s:'' ''d1:'' init_state))"
proof -
  have a: "fst (get_files_to_copy two_dest_env ''s:'' ''d2:'' init_state) = [file_A]"
    by (simp add: run_defs sample_defs two_dest_env_def)
  have b: "fst (get_files_to_copy two_dest_env ''s:'' ''d1:'' init_state) = []"
    by (simp add: run_defs sample_defs two_dest_env_def)
  have c: "fst (get_files_to_copy two_dest_env ''s:'' ''d2:''
          (snd (get_files_to_copy two_dest_env ''s:'' ''d1:'' init_state))) = []"
    by (simp add: run_defs sample_defs two_dest_env_def)
  have d: "trace (snd (get_files_to_copy two_dest_env ''s:'' ''d2:''
                 (snd (get_files_to_copy two_dest_env ''s:'' ''d1:'' init_state)))) =
     trace (snd (get_files_to_copy two_dest_env ''s:'' ''d1:'' init_state))"
    by (simp add: run_defs sample_defs two_dest_env_def)
  from a b c d show ?thesis by blast
qed

subsection \<open>Quota errors\<close>

text \<open>
  C3. The claim is that any copy failure with a quota indicator in its text stops the run.
  A failure of the first copy of a file does (the second and fourth part below: with
  \<open>first_quota_env\<close> the run returns after the first copy). A failure of the retry copy
  does not: its text is logged by line 332 and is a quota text, but the loop goes on to
  file B and copies it.
\<close>

theorem retry_quota_failure_goes_on:
  "is_quota_exceeded ''Exit code 1: googleapi: Error 403: quotaExceeded'' \<and>
   (ERROR, 332, [''A'', ''Exit code 1: googleapi: Error 403: quotaExceeded''])
     \<in> set (logs (snd (files_loop retry_quota_env ''s:'' ''d:'' 1000 (replace_2300 noon)
                          [file_A, file_B] 0 0 init_state))) \<and>
   fst (files_loop retry_quota_env ''s:'' ''d:'' 1000 (replace_2300 noon)
          [file_A, file_B] 0 0 init_state) = Continue 1 20 \<and>
   trace (snd (files_loop retry_quota_env ''s:'' ''d:'' 1000 (replace_2300 noon)
                 [file_A, file_B] 0 0 init_state)) =
     [Ls ''s:/A'' NoOpts, Copyto ''s:/A'' ''d:/A'', Hashsum ''s:/A'', Hashsum ''d:/A'',
      Delete ''d:/A'', Copyto ''s:/A'' ''d:/A'',
      Ls ''s:/B'' NoOpts, Copyto ''s:/B'' ''d:/B'', Hashsum ''s:/B'', Hashsum ''d:/B''] \<and>
   fst (files_loop first_quota_env ''s:'' ''d:'' 1000 (replace_2300 noon)
          [file_A, file_B] 0 0 init_state) = Return 0 0 \<and>
   trace (snd (files_loop first_quota_env ''s:'' ''d:'' 1000 (replace_2300 noon)
                 [file_A, file_B] 0 0 init_state)) =
     [Ls ''s:/A'' NoOpts, Copyto ''s:/A'' ''d:/A'']"
proof -
  have q: "is_quota_exceeded ''Exit code 1: googleapi: Error 403: quotaExceeded''"
    by (simp add: run_defs)
  have a: "(ERROR, 332, [''A'', ''Exit code 1: googleapi: Error 403: quotaExceeded''])
     \<in> set (logs (snd (files_loop retry_quota_env ''s:'' ''d:'' 1000 (replace_2300 noon)
                          [file_A, file_B] 0 0 init_state)))"
    by (simp add: run_defs sample_defs retry_quota_env_def)
  have b: "fst (files_loop retry_quota_env ''s:'' ''d:'' 1000 (replace_2300 noon)
          [file_A, file_B] 0 0 init_state) = Continue 1 20"
    by (simp add: run_defs sample_defs retry_quota_env_def)
  have c: "trace (snd (files_loop retry_quota_env ''s:'' ''d:'' 1000 (replace_2300 noon)
                 [file_A, file_B] 0 0 init_state)) =
     [Ls ''s:/A'' NoOpts, Copyto ''s:/A'' ''d:/A'', Hashsum ''s:/A'', Hashsum ''d:/A'',
      Delete ''d:/A'', Copyto ''s:/A'' ''d:/A'',
      Ls ''s:/B'' NoOpts, Copyto ''s:/B'' ''d:/B'', Hashsum ''s:/B'', Hashsum ''d:/B'']"
    by (simp add: run_defs sample_defs retry_quota_env_def)
  have d: "fst (files_loop first_quota_env ''s:'' ''d:'' 1000 (replace_2300 noon)
          [file_A, file_B] 0 0 init_state) = Return 0 0"
    by (simp add: run_defs sample_defs first_quota_env_def)
  have e: "trace (snd (files_loop first_quota_env ''s:'' ''d:'' 1000 (replace_2300 noon)
                 [file_A, file_B] 0 0 init_state)) =
     [Ls ''s:/A'' NoOpts, Copyto ''s:/A'' ''d:/A'']"
    by (simp add: run_defs sample_defs first_quota_env_def)
  from q a b c d e show ?thesis by blast
qed

subsection \<open>Verification and the single retry\<close>

text \<open>
  C5, as the claim states it, fails: when the copy succeeded, the hashes differ and the
  deletion of the destination copy fails, no retry copy is made. The only copy in the
  history is the first one.
\<close>

theorem no_retry_when_delete_fails:
  "fst (run_rclone_copy undeletable_env ''s:/A'' ''d:/A'' init_state) = (True, []) \<and>
   fst (get_file_hash undeletable_env ''s:/A'' init_state) = Inr (Some ''h1'') \<and>
   fst (get_file_hash undeletable_env ''d:/A'' init_state) = Inr (Some ''h2'') \<and>
   fst (process_file undeletable_env ''s:'' ''d:'' 1000 (replace_2300 noon) file_A 0 0 init_state)
     = Continue 0 0 \<and>
   trace (snd (process_file undeletable_env ''s:'' ''d:'' 1000 (replace_2300 noon) file_A 0 0
                 init_state)) =
     [Ls ''s:/A'' NoOpts, Copyto ''s:/A'' ''d:/A'', Hashsum ''s:/A'', Hashsum ''d:/A'',
      Delete ''d:/A'']"
proof -
  have a: "fst (run_rclone_copy undeletable_env ''s:/A'' ''d:/A'' init_state) = (True, [])"
    by (simp add: run_defs sample_defs undeletable_env_def)
  have b: "fst (get_file_hash undeletable_env ''s:/A'' init_state) = Inr (Some ''h1'')"
    by (simp add: run_defs sample_defs undeletable_env_def)
  have c: "fst (get_file_hash undeletable_env ''d:/A'' init_state) = Inr (Some ''h2'')"
    by (simp add: run_defs sample_defs undeletable_env_def)
  have d: "fst (process_file undeletable_env ''s:'' ''d:'' 1000 (replace_2300 noon) file_A 0 0
                  init_state) = Continue 0 0"
    by (simp add: run_defs sample_defs undeletable_env_def)
  have e: "trace (snd (process_file undeletable_env ''s:'' ''d:'' 1000 (replace_2300 noon) file_A
                         0 0 init_state)) =
     [Ls ''s:/A'' NoOpts, Copyto ''s:/A'' ''d:/A'', Hashsum ''s:/A'', Hashsum ''d:/A'',
      Delete ''d:/A'']"
    by (simp add: run_defs sample_defs undeletable_env_def)
  from a b c d e show ?thesis by blast
qed

text \<open>
  The branch after a successful first copy whose hashes were obtained and do not match:
  the counts of deletions and copies, and how it ends in each case.
\<close>

lemma verify_copy_retry:
  assumes h1: "get_file_hash e sp s = (Inr a, s1)"
      and h2: "get_file_hash e dp s1 = (Inr b, s2)"
      and mm: "\<not> hashes_match a b"
      and run: "verify_copy e file sp dp sz tc ts s = (r, s')"
  shows "deletions (trace s') = Suc (deletions (trace s))"
    and "copies (trace s') =
           copies (trace s) + (if delete_reply e (trace s2) dp = None then 1 else 0)"
    and "delete_reply e (trace s2) dp \<noteq> None \<Longrightarrow>
           r = Continue tc ts \<and> last (logs s') = (WARNING, 334, [Path file])"
    and "\<And>ok msg s4.
           delete_reply e (trace s2) dp = None \<Longrightarrow>
           run_rclone_copy e sp dp
              (logger INFO 320 [Path file] (logger INFO 319 [Path file]
                 (snd (delete_file e dp (logger ERROR 317 [Path file] s2)))))
              = ((ok, msg), s4) \<Longrightarrow>
           \<not> ok \<Longrightarrow>
           r = Continue tc ts \<and> last (logs s') = (ERROR, 332, [Path file, msg])"
    and "\<And>ok msg s4 a' b' s5 s6.
           delete_reply e (trace s2) dp = None \<Longrightarrow>
           run_rclone_copy e sp dp
              (logger INFO 320 [Path file] (logger INFO 319 [Path file]
                 (snd (delete_file e dp (logger ERROR 317 [Path file] s2)))))
              = ((ok, msg), s4) \<Longrightarrow>
           ok \<Longrightarrow>
           get_file_hash e sp s4 = (Inr a', s5) \<Longrightarrow>
           get_file_hash e dp s5 = (Inr b', s6) \<Longrightarrow>
           (hashes_match a' b' \<longrightarrow>
              r = Continue (tc + 1) (ts + sz) \<and> last (logs s') = (INFO, 326, [Path file])) \<and>
           (\<not> hashes_match a' b' \<longrightarrow>
              r = Continue tc ts \<and> last (logs s') = (ERROR, 330, [Path file]))"
proof -
  have t1: "trace s1 = trace s @ [Hashsum sp]" using h1 by (rule get_file_hashD)
  have t2: "trace s2 = trace s1 @ [Hashsum dp]" using h2 by (rule get_file_hashD)
  obtain deleted s3 where d: "delete_file e dp (logger ERROR 317 [Path file] s2) = (deleted, s3)"
    by fastforce
  from delete_fileD [OF d]
  have t3: "trace s3 = trace s2 @ [Delete dp]"
    and dl: "deleted \<longleftrightarrow> delete_reply e (trace s2) dp = None" by simp_all
  have s3: "snd (delete_file e dp (logger ERROR 317 [Path file] s2)) = s3"
    using d by simp
  obtain ok0 msg0 s40 where c: "run_rclone_copy e sp dp
      (logger INFO 320 [Path file] (logger INFO 319 [Path file] s3)) = ((ok0, msg0), s40)"
    by (metis surj_pair)
  from run_rclone_copyD [OF c] have t4: "trace s40 = trace s3 @ [Copyto sp dp]" by simp
  obtain r5 s50 where g5: "get_file_hash e sp s40 = (r5, s50)" by fastforce
  have t5: "trace s50 = trace s40 @ [Hashsum sp]" using g5 by (rule get_file_hashD)
  obtain r6 s60 where g6: "get_file_hash e dp s50 = (r6, s60)" by fastforce
  have t6: "trace s60 = trace s50 @ [Hashsum dp]" using g6 by (rule get_file_hashD)
  have start: "verify_copy e file sp dp sz tc ts s =
      (if deleted then
         (if ok0 then
            (case r5 of
               Inl x \<Rightarrow> (Raise x, s50)
             | Inr a' \<Rightarrow>
                (case r6 of
                   Inl x \<Rightarrow> (Raise x, s60)
                 | Inr b' \<Rightarrow>
                    if hashes_match a' b' then
                      (Continue (tc + 1) (ts + sz), logger INFO 326 [Path file] s60)
                    else (Continue tc ts, logger ERROR 330 [Path file] s60)))
          else (Continue tc ts, logger ERROR 332 [Path file, msg0] s40))
       else (Continue tc ts, logger WARNING 334 [Path file] s3))"
    unfolding verify_copy_def
    by (simp add: h1 h2 mm d c g5 g6 Let_def split: sum.splits)
  note nf = start [unfolded run]
  have tr: "trace s' = trace s3 \<or>
            (deleted \<and> (trace s' = trace s40 \<or> trace s' = trace s50 \<or> trace s' = trace s60))"
    using nf by (auto split: if_splits sum.splits)
  have tr_del: "\<not> deleted \<Longrightarrow> trace s' = trace s3"
    using nf by (auto split: if_splits)
  have tr_cp: "deleted \<Longrightarrow> trace s' = trace s40 \<or> trace s' = trace s50 \<or> trace s' = trace s60"
    using nf by (auto split: if_splits sum.splits)
  show "deletions (trace s') = Suc (deletions (trace s))"
    using tr t1 t2 t3 t4 t5 t6 by auto
  show "copies (trace s') =
           copies (trace s) + (if delete_reply e (trace s2) dp = None then 1 else 0)"
  proof (cases deleted)
    case True
    with tr_cp dl t1 t2 t3 t4 t5 t6 show ?thesis by auto
  next
    case False
    with tr_del dl t1 t2 t3 show ?thesis by auto
  qed
  show "r = Continue tc ts \<and> last (logs s') = (WARNING, 334, [Path file])"
    if "delete_reply e (trace s2) dp \<noteq> None"
    using that nf dl by auto
  show "r = Continue tc ts \<and> last (logs s') = (ERROR, 332, [Path file, msg])"
    if "delete_reply e (trace s2) dp = None"
      and "run_rclone_copy e sp dp
              (logger INFO 320 [Path file] (logger INFO 319 [Path file]
                 (snd (delete_file e dp (logger ERROR 317 [Path file] s2)))))
              = ((ok, msg), s4)"
      and "\<not> ok"
    for ok msg s4
  proof -
    from that(2) c have "ok = ok0" "msg = msg0" by (simp_all add: s3)
    with that(1,3) nf dl show ?thesis by auto
  qed
  show "(hashes_match a' b' \<longrightarrow>
              r = Continue (tc + 1) (ts + sz) \<and> last (logs s') = (INFO, 326, [Path file])) \<and>
           (\<not> hashes_match a' b' \<longrightarrow>
              r = Continue tc ts \<and> last (logs s') = (ERROR, 330, [Path file]))"
    if "delete_reply e (trace s2) dp = None"
      and "run_rclone_copy e sp dp
              (logger INFO 320 [Path file] (logger INFO 319 [Path file]
                 (snd (delete_file e dp (logger ERROR 317 [Path file] s2)))))
              = ((ok, msg), s4)"
      and "ok"
      and "get_file_hash e sp s4 = (Inr a', s5)"
      and "get_file_hash e dp s5 = (Inr b', s6)"
    for ok msg s4 a' b' s5 s6
  proof -
    from that(2) c have same: "ok0 = ok" "s40 = s4" by (simp_all add: s3)
    with that(4) g5 have five: "r5 = Inr a'" "s50 = s5" by simp_all
    with that(5) g6 have six: "r6 = Inr b'" by simp
    from nf that(1,3) dl same five six show ?thesis by auto
  qed
qed

text \<open>
  C5, amended. Let a file reach its copy, let the copy succeed and let the two hashes be
  obtained and not match. Then the loop body attempts exactly one deletion of the
  destination copy. If the deletion fails, no further copy is made and the file is
  reported failed with the warning of line 334. If the deletion succeeds, exactly one more
  copy is made, and no third: when that copy fails, or succeeds with hashes that are
  obtained and do not match, the file is reported failed (lines 332, 330) and the counters
  stay as they were; when its hashes match, the file is counted (line 326). Whenever the
  file is reported failed, the loop goes on with the next file. Nothing is said about a
  retry whose hash query raises.
\<close>

theorem mismatch_retries_once:
  fixes e :: env and src dst :: string and f :: entry and s :: state
  defines "sp \<equiv> src @ ''/'' @ Path f"
      and "dp \<equiv> dst @ ''/'' @ Path f"
  defines "sc \<equiv> s\<lparr>ticks := Suc (ticks s),
                    logs := logs s @ [(INFO, 281, []), (INFO, 295, [Path f]),
                                      (INFO, 306, [Path f])],
                    trace := trace s @ [Ls sp NoOpts, Copyto sp dp]\<rparr>"
  assumes early: "\<not> dt_ge (clock e (ticks s)) stop"
      and below: "ts < MAX_TRANSFER_GB * 1024 ^ 3"
      and fits: "\<not> ts + size_of f > free"
      and listed: "ls_reply e (trace s) sp NoOpts = Inr items" "items \<noteq> []"
      and copied: "copyto_reply e (trace s @ [Ls sp NoOpts]) sp dp = Inr out"
      and h1: "get_file_hash e sp sc = (Inr a, s1)"
      and h2: "get_file_hash e dp s1 = (Inr b, s2)"
      and mm: "\<not> hashes_match a b"
      and run: "process_file e src dst free stop f tc ts s = (r, s')"
  shows "deletions (trace s') = Suc (deletions (trace s))
       \<and> copies (trace s') =
           copies (trace s) + (if delete_reply e (trace s2) dp = None then 2 else 1)
       \<and> (delete_reply e (trace s2) dp \<noteq> None \<longrightarrow>
            r = Continue tc ts \<and> last (logs s') = (WARNING, 334, [Path f]))
       \<and> (\<forall>ok msg s4.
            delete_reply e (trace s2) dp = None \<longrightarrow>
            run_rclone_copy e sp dp
              (logger INFO 320 [Path f] (logger INFO 319 [Path f]
                 (snd (delete_file e dp (logger ERROR 317 [Path f] s2)))))
              = ((ok, msg), s4) \<longrightarrow>
            (\<not> ok \<longrightarrow> r = Continue tc ts \<and> last (logs s') = (ERROR, 332, [Path f, msg])) \<and>
            (\<forall>a' b' s5 s6.
               ok \<longrightarrow> get_file_hash e sp s4 = (Inr a', s5) \<longrightarrow>
               get_file_hash e dp s5 = (Inr b', s6) \<longrightarrow>
               (hashes_match a' b' \<longrightarrow>
                  r = Continue (tc + 1) (ts + size_of f)
                  \<and> last (logs s') = (INFO, 326, [Path f])) \<and>
               (\<not> hashes_match a' b' \<longrightarrow>
                  r = Continue tc ts \<and> last (logs s') = (ERROR, 330, [Path f]))))
       \<and> (r = Continue tc ts \<longrightarrow>
            files_loop e src dst free stop (f # rest) tc ts s =
              files_loop e src dst free stop rest tc ts s')"
proof -
  have reach: "process_file e src dst free stop f tc ts s =
                 verify_copy e f sp dp (size_of f) tc ts sc"
    using early below fits listed copied
    by (simp add: process_file_def now_def rclone_ls_def run_rclone_copy_def logger_def Let_def
                  sp_def dp_def sc_def)
  with run have run': "verify_copy e f sp dp (size_of f) tc ts sc = (r, s')" by simp
  note facts = verify_copy_retry [OF h1 h2 mm run']
  have tc: "copies (trace sc) = Suc (copies (trace s))"
    and td: "deletions (trace sc) = deletions (trace s)"
    by (simp_all add: sc_def)
  have A: "deletions (trace s') = Suc (deletions (trace s))"
    using facts(1) td by simp
  have B: "copies (trace s') =
           copies (trace s) + (if delete_reply e (trace s2) dp = None then 2 else 1)"
    using facts(2) tc by simp
  have L: "r = Continue tc ts \<longrightarrow>
            files_loop e src dst free stop (f # rest) tc ts s =
              files_loop e src dst free stop rest tc ts s'"
    using run by simp
  from A B facts(3) facts(4) facts(5) L show ?thesis
    by blast
qed


theorem mismatch_retries_once_witness:
  "\<not> dt_ge (clock mismatch_env (ticks init_state)) (replace_2300 noon) \<and>
   (0::int) < MAX_TRANSFER_GB * 1024 ^ 3 \<and>
   \<not> 0 + size_of file_A > 1000 \<and>
   ls_reply mismatch_env (trace init_state) (''s:'' @ ''/'' @ Path file_A) NoOpts
     = Inr [file_A] \<and>
   copyto_reply mismatch_env (trace init_state @ [Ls (''s:'' @ ''/'' @ Path file_A) NoOpts])
       (''s:'' @ ''/'' @ Path file_A) (''d:'' @ ''/'' @ Path file_A) = Inr [] \<and>
   \<not> hashes_match (Some ''h1'') (Some ''h2'') \<and>
   fst (process_file mismatch_env ''s:'' ''d:'' 1000 (replace_2300 noon) file_A 0 0 init_state)
     = Continue 0 0 \<and>
   last (logs (snd (process_file mismatch_env ''s:'' ''d:'' 1000 (replace_2300 noon) file_A 0 0
                      init_state))) = (ERROR, 330, [Path file_A]) \<and>
   deletions (trace (snd (process_file mismatch_env ''s:'' ''d:'' 1000 (replace_2300 noon)
                            file_A 0 0 init_state))) = 1 \<and>
   copies (trace (snd (process_file mismatch_env ''s:'' ''d:'' 1000 (replace_2300 noon)
                         file_A 0 0 init_state))) = 2"
proof -
  let ?sp = "''s:'' @ ''/'' @ Path file_A"
  let ?dp = "''d:'' @ ''/'' @ Path file_A"
  let ?run = "process_file mismatch_env ''s:'' ''d:'' 1000 (replace_2300 noon) file_A 0 0
                init_state"
  define s1 where "s1 = snd (get_file_hash mismatch_env ?sp
      (init_state\<lparr>ticks := Suc (ticks init_state),
                  logs := logs init_state @ [(INFO, 281, []), (INFO, 295, [Path file_A]),
                                             (INFO, 306, [Path file_A])],
                  trace := trace init_state @ [Ls ?sp NoOpts, Copyto ?sp ?dp]\<rparr>))"
  define s2 where "s2 = snd (get_file_hash mismatch_env ?dp s1)"
  define s4 where "s4 = snd (run_rclone_copy mismatch_env ?sp ?dp
      (logger INFO 320 [Path file_A] (logger INFO 319 [Path file_A]
         (snd (delete_file mismatch_env ?dp (logger ERROR 317 [Path file_A] s2))))))"
  define s5 where "s5 = snd (get_file_hash mismatch_env ?sp s4)"
  define s6 where "s6 = snd (get_file_hash mismatch_env ?dp s5)"
  have pairI: "p = (x, snd p)" if "fst p = x" for p :: "'a \<times> 'b" and x
    using that by auto
  have src_hash: "fst (get_file_hash mismatch_env ?sp X) = Inr (Some ''h1'')" for X
    by (simp add: get_file_hash_def first_token_def is_space_def Let_def mismatch_env_def
                  demo_env_def file_A_def)
  have dst_hash: "fst (get_file_hash mismatch_env ?dp X) = Inr (Some ''h2'')" for X
    by (simp add: get_file_hash_def first_token_def is_space_def Let_def mismatch_env_def
                  demo_env_def file_A_def)
  have copy_ok: "fst (run_rclone_copy mismatch_env ?sp ?dp X) = (True, [])" for X
    by (simp add: run_rclone_copy_def Let_def mismatch_env_def demo_env_def)
  have early: "\<not> dt_ge (clock mismatch_env (ticks init_state)) (replace_2300 noon)"
    by (simp add: mismatch_env_def demo_env_def noon_def dt_ge_def replace_2300_def)
  have below: "(0::int) < MAX_TRANSFER_GB * 1024 ^ 3"
    by (simp add: MAX_TRANSFER_GB_def)
  have fits: "\<not> 0 + size_of file_A > 1000"
    by (simp add: size_of_def file_A_def)
  have listed: "ls_reply mismatch_env (trace init_state) ?sp NoOpts = Inr [file_A]"
    by (simp add: mismatch_env_def demo_env_def file_A_def)
  have nonempty: "[file_A] \<noteq> []" by simp
  have copied: "copyto_reply mismatch_env (trace init_state @ [Ls ?sp NoOpts]) ?sp ?dp = Inr []"
    by (simp add: mismatch_env_def demo_env_def)
  have h1: "get_file_hash mismatch_env ?sp
      (init_state\<lparr>ticks := Suc (ticks init_state),
                  logs := logs init_state @ [(INFO, 281, []), (INFO, 295, [Path file_A]),
                                             (INFO, 306, [Path file_A])],
                  trace := trace init_state @ [Ls ?sp NoOpts, Copyto ?sp ?dp]\<rparr>)
        = (Inr (Some ''h1''), s1)"
    unfolding s1_def by (rule pairI) (rule src_hash)
  have h2: "get_file_hash mismatch_env ?dp s1 = (Inr (Some ''h2''), s2)"
    unfolding s2_def by (rule pairI) (rule dst_hash)
  have mm: "\<not> hashes_match (Some ''h1'') (Some ''h2'')"
    by (simp add: hashes_match_def)
  have run: "?run = (fst ?run, snd ?run)" by (rule pairI) (rule refl)
  have del: "delete_reply mismatch_env (trace s2) ?dp = None"
    by (simp add: mismatch_env_def demo_env_def)
  have cpy: "run_rclone_copy mismatch_env ?sp ?dp
      (logger INFO 320 [Path file_A] (logger INFO 319 [Path file_A]
         (snd (delete_file mismatch_env ?dp (logger ERROR 317 [Path file_A] s2)))))
       = ((True, []), s4)"
    unfolding s4_def by (rule pairI) (rule copy_ok)
  have g5: "get_file_hash mismatch_env ?sp s4 = (Inr (Some ''h1''), s5)"
    unfolding s5_def by (rule pairI) (rule src_hash)
  have g6: "get_file_hash mismatch_env ?dp s5 = (Inr (Some ''h2''), s6)"
    unfolding s6_def by (rule pairI) (rule dst_hash)
  note inst = mismatch_retries_once
                [where rest = "[]", OF early below fits listed nonempty copied h1 h2 mm run]
  from inst del cpy g5 g6 mm
  have res: "fst ?run = Continue 0 0 \<and> last (logs (snd ?run)) = (ERROR, 330, [Path file_A])"
    by blast
  from inst have "deletions (trace (snd ?run)) = Suc (deletions (trace init_state))"
    by blast
  then have dels: "deletions (trace (snd ?run)) = 1"
    by (simp add: init_state_def)
  from inst del have "copies (trace (snd ?run)) = copies (trace init_state) + 2"
    by simp
  then have cps: "copies (trace (snd ?run)) = 2"
    by (simp add: init_state_def)
  from early below fits listed copied mm res dels cps show ?thesis by blast
qed

subsection \<open>A run that starts after the deadline\<close>

text \<open>
  C9. Let the first clock reading of \<open>sync_files\<close> be at or after 23:00 and let no later
  reading be earlier than it. Then the run makes no copy and ends with the totals 0 and 0,
  unless an exception ends it. And when the capacity query of the first pair succeeds with
  at least 2 percent free, the source exists and the plan is not empty, the run returns in
  the state that the capacity query, the existence check and \<open>get_files_to_copy\<close> (with
  its deletions of stale destination files) have produced, followed by the records of
  lines 272, 277 and 278 and one clock reading.
\<close>

theorem late_start_copies_nothing:
  assumes late: "23 * 3600 * 1000000 \<le> micros (clock e (ticks s))"
      and mono: "\<forall>n \<ge> ticks s. dt_ge (clock e n) (clock e (ticks s))"
  shows "copies (trace (snd (sync_files e transfers s))) = copies (trace s)
       \<and> (fst (sync_files e transfers s) = Return 0 0
            \<or> (\<exists>x. fst (sync_files e transfers s) = Raise x))
       \<and> (\<forall>src dst rest pct free s1 s2 files s3.
            transfers = (src, dst) # rest \<longrightarrow>
            get_gdrive_free_space_percent_from_path e dst
                (logger INFO 234 [] (snd (now e s))) = (Inr (Tuple3 True pct free), s1) \<longrightarrow>
            \<not> pct < 2 \<longrightarrow>
            check_remote_exists e src (logger INFO 256 [src, dst] s1) = (True, s2) \<longrightarrow>
            get_files_to_copy e src dst s2 = (files, s3) \<longrightarrow>
            files \<noteq> [] \<longrightarrow>
            sync_files e transfers s =
              (Return 0 0,
               logger INFO 278 [] (logger INFO 277 []
                 (snd (now e (logger INFO 272 [src] s3))))))"
proof -
  define stop where "stop = replace_2300 (clock e (ticks s))"
  define s0 where "s0 = logger INFO 234 [] (snd (now e s))"
  have "dt_ge (clock e (ticks s)) stop"
    using late by (simp add: stop_def dt_ge_def replace_2300_def)
  with mono have all_late: "\<forall>n \<ge> ticks s. dt_ge (clock e n) stop"
    by (blast intro: dt_ge_trans)
  have ticks0: "ticks s0 = Suc (ticks s)" and trace0: "trace s0 = trace s"
    by (simp_all add: s0_def now_def)
  from all_late ticks0 have late0: "\<forall>n \<ge> ticks s0. dt_ge (clock e n) stop"
    by simp
  have unfold: "sync_files e transfers s =
      (if transfers = [] then (Return 0 0, logger ERROR 243 [] s0)
       else (case transfers_loop e stop transfers 0 0 s0 of
               (Continue total_copied total_size_copied, s) \<Rightarrow>
                 (Return total_copied total_size_copied, logger INFO 342 [] s)
             | other \<Rightarrow> other))"
    by (simp add: sync_files_def stop_def s0_def now_def Let_def)
  obtain r s' where loop: "transfers_loop e stop transfers 0 0 s0 = (r, s')" by fastforce
  from transfers_loop_late [OF late0 loop]
  have quiet: "no_copy_between s0 s'"
    and flow: "r = Continue 0 0 \<or> r = Return 0 0 \<or> (\<exists>x. r = Raise x)" by simp_all
  have part1: "copies (trace (snd (sync_files e transfers s))) = copies (trace s)"
    using unfold loop quiet flow trace0 by (auto simp: no_copy_between_def)
  have part2: "fst (sync_files e transfers s) = Return 0 0
                 \<or> (\<exists>x. fst (sync_files e transfers s) = Raise x)"
    using unfold loop flow by auto
  have part3: "sync_files e transfers s =
              (Return 0 0,
               logger INFO 278 [] (logger INFO 277 []
                 (snd (now e (logger INFO 272 [src] s3)))))"
    if tr: "transfers = (src, dst) # rest"
      and cap: "get_gdrive_free_space_percent_from_path e dst
                  (logger INFO 234 [] (snd (now e s))) = (Inr (Tuple3 True pct free), s1)"
      and pct: "\<not> pct < 2"
      and chk: "check_remote_exists e src (logger INFO 256 [src, dst] s1) = (True, s2)"
      and plan: "get_files_to_copy e src dst s2 = (files, s3)"
      and files: "files \<noteq> []"
    for src dst rest pct free s1 s2 files s3
  proof -
    have "no_copy_between s0 s1"
      using cap capacity_quiet unfolding s0_def by blast
    moreover have "no_copy_between s1 s2"
      using check_remote_exists_quiet [OF chk] by simp
    moreover have "no_copy_between s2 s3"
      using plan by (rule get_files_to_copy_quiet)
    ultimately have "ticks s0 \<le> ticks s3"
      by (simp add: no_copy_between_def)
    with late0 have "dt_ge (clock e (ticks (logger INFO 272 [src] s3))) stop"
      by simp
    from files_loop_late [OF this files]
    have "files_loop e src dst free stop files 0 0 (logger INFO 272 [src] s3) =
            (Return 0 0, logger INFO 278 [] (logger INFO 277 []
                (snd (now e (logger INFO 272 [src] s3)))))" .
    with cap pct chk plan files
    have "process_transfer e stop (src, dst) 0 0 s0 =
            (Return 0 0, logger INFO 278 [] (logger INFO 277 []
                (snd (now e (logger INFO 272 [src] s3)))))"
      by (simp add: process_transfer_def s0_def Let_def)
    with tr unfold show ?thesis by simp
  qed
  from part1 part2 part3 show ?thesis by blast
qed

theorem late_start_copies_nothing_witness:
  "23 * 3600 * 1000000 \<le> micros (clock late_env (ticks init_state)) \<and>
   dt_ge (clock late_env 7) (clock late_env (ticks init_state)) \<and>
   fst (get_gdrive_free_space_percent_from_path late_env ''d:''
          (logger INFO 234 [] (snd (now late_env init_state)))) = Inr (Tuple3 True 50 500) \<and>
   \<not> (50 :: rat) < 2 \<and>
   fst (sync_files late_env [(''s:'', ''d:'')] init_state) = Return 0 0 \<and>
   trace (snd (sync_files late_env [(''s:'', ''d:'')] init_state)) =
     [About ''d:'', Ls ''s:'' MaxDepth1, Ls ''s:'' MaxDepth1, Ls ''s:'' MaxDepthAllHash,
      Ls ''d:'' MaxDepth1, Ls ''d:'' MaxDepthAllHash, Delete ''d:/A''] \<and>
   copies (trace (snd (sync_files late_env [(''s:'', ''d:'')] init_state))) = 0"
proof -
  define s1 where "s1 = snd (get_gdrive_free_space_percent_from_path late_env ''d:''
                              (logger INFO 234 [] (snd (now late_env init_state))))"
  define s2 where "s2 = snd (check_remote_exists late_env ''s:''
                              (logger INFO 256 [''s:'', ''d:''] s1))"
  define s3 where "s3 = snd (get_files_to_copy late_env ''s:'' ''d:'' s2)"
  have late: "23 * 3600 * 1000000 \<le> micros (clock late_env (ticks init_state))"
    by (simp add: late_env_def demo_env_def)
  have mono: "\<forall>n \<ge> ticks init_state.
                dt_ge (clock late_env n) (clock late_env (ticks init_state))"
    by (simp add: late_env_def demo_env_def dt_ge_def)
  have capv: "fst (get_gdrive_free_space_percent_from_path late_env ''d:''
                (logger INFO 234 [] (snd (now late_env init_state)))) = Inr (Tuple3 True 50 500)"
    by (simp add: run_defs sample_defs late_env_def)
  then have cap: "get_gdrive_free_space_percent_from_path late_env ''d:''
                (logger INFO 234 [] (snd (now late_env init_state)))
                  = (Inr (Tuple3 True 50 500), s1)"
    by (simp add: s1_def prod_eq_iff)
  have pct: "\<not> (50 :: rat) < 2" by simp
  have tr1: "trace s1 = [About ''d:'']" and c1: "cache s1 = Map.empty" and k1: "ticks s1 = 1"
    by (simp_all add: s1_def run_defs sample_defs late_env_def)
  have "fst (check_remote_exists late_env ''s:'' (logger INFO 256 [''s:'', ''d:''] s1))"
    by (simp add: check_remote_exists_def rclone_ls_def Let_def late_env_def demo_env_def)
  then have chk: "check_remote_exists late_env ''s:'' (logger INFO 256 [''s:'', ''d:''] s1)
                    = (True, s2)"
    by (simp add: s2_def prod_eq_iff)
  have tr2: "trace s2 = [About ''d:'', Ls ''s:'' MaxDepth1]"
    and c2: "cache s2 = Map.empty" and k2: "ticks s2 = 1"
    by (simp_all add: s2_def check_remote_exists_def rclone_ls_def Let_def late_env_def
                      demo_env_def tr1 c1 k1 split: sum.splits)
  have plv: "fst (get_files_to_copy late_env ''s:'' ''d:'' s2) = [file_A, file_B]"
    by (simp add: run_defs sample_defs late_env_def tr2 c2 k2)
  then have plan: "get_files_to_copy late_env ''s:'' ''d:'' s2 = ([file_A, file_B], s3)"
    by (simp add: s3_def prod_eq_iff)
  have ne: "[file_A, file_B] \<noteq> []" by simp
  note inst = late_start_copies_nothing
               [where e = late_env and s = init_state and transfers = "[(''s:'', ''d:'')]",
                OF late mono]
  from inst have nocopy:
    "copies (trace (snd (sync_files late_env [(''s:'', ''d:'')] init_state))) = 0"
    by (simp add: init_state_def)
  from inst cap pct chk plan ne
  have run: "sync_files late_env [(''s:'', ''d:'')] init_state =
               (Return 0 0, logger INFO 278 [] (logger INFO 277 []
                  (snd (now late_env (logger INFO 272 [''s:''] s3)))))"
    by blast
  have tr3: "trace s3 = [About ''d:'', Ls ''s:'' MaxDepth1, Ls ''s:'' MaxDepth1,
                Ls ''s:'' MaxDepthAllHash, Ls ''d:'' MaxDepth1, Ls ''d:'' MaxDepthAllHash,
                Delete ''d:/A'']"
    by (simp add: s3_def run_defs sample_defs late_env_def tr2 c2 k2)
  from run have res: "fst (sync_files late_env [(''s:'', ''d:'')] init_state) = Return 0 0"
    by (simp only: fst_conv)
  from run tr3 have final: "trace (snd (sync_files late_env [(''s:'', ''d:'')] init_state)) =
     [About ''d:'', Ls ''s:'' MaxDepth1, Ls ''s:'' MaxDepth1, Ls ''s:'' MaxDepthAllHash,
      Ls ''d:'' MaxDepth1, Ls ''d:'' MaxDepthAllHash, Delete ''d:/A'']"
    by (simp add: now_def)
  from mono have later: "dt_ge (clock late_env 7) (clock late_env (ticks init_state))"
    by (simp add: init_state_def)
  from late later capv pct res final nocopy show ?thesis by blast
qed

end
